theory Spec2Isabelle
  imports Complex_Main "HOL-Library.Word" "HOL-Library.Monad_Syntax"
begin

unbundle bit_operations_syntax

section \<open>FarDriver monitor: packet codec, packet history and telemetry store\<close>

text \<open>
  The development embeds the packet inspector, the controller data store and the message
  handler of \<^verbatim>\<open>pc_display/FarDriver_Monitor.py\<close>.

  Conventions of the embedding:
  \<^item> a BLE payload is a list of bytes (\<open>8 word\<close>); a byte read by index becomes a Python
    integer (\<open>int\<close>), and a read outside the payload is \<open>None\<close> (Python raises
    \<^verbatim>\<open>IndexError\<close>);
  \<^item> Python floats are idealised as real numbers, and \<^verbatim>\<open>x ** 0.5\<close> as \<open>sqrt x\<close>;
  \<^item> values the source renders as text for display (hex dumps, fixed-point formatting of
    currents, the error message) are kept as the values themselves;
  \<^item> every reading of the wall clock is an explicit argument; where one call reads the clock
    several times, these readings are a single argument (\<^verbatim>\<open>message_handler\<close> keeps its
    first reading, the packet start time, apart);
  \<^item> logging to the terminal widget and writing the CSV file are left out: they do not feed
    back into the state modelled here.
\<close>

subsection \<open>Reading bytes\<close>

type_synonym byte = "8 word"

definition byte_at :: "byte list \<Rightarrow> nat \<Rightarrow> int option" where
  "byte_at data i = (if i < length data then Some (uint (data ! i)) else None)"

subsection \<open>Decoded packets\<close>

datatype parsed_data =
    Main_data int string int real real real
      \<comment> \<open>gear bits, gear, rpm, iq, id, current magnitude\<close>
  | Voltage_data int real
      \<comment> \<open>raw voltage, voltage\<close>
  | Controller_temp_data int
  | Motor_throttle_data int int real
      \<comment> \<open>motor temperature, raw throttle, throttle percent\<close>
  | Unknown_index int

record packet_info =
  valid :: bool
  index :: int
  raw_data :: "byte list"
  checksum_valid :: bool
  checksum :: int
  expected_checksum :: int
  reserved :: int
  timestamp :: real
  parsed_data :: parsed_data

datatype frame_error = Invalid_packet_length nat | Invalid_header int

datatype analysis = Rejected frame_error "byte list" | Decoded packet_info

fun is_valid :: "analysis \<Rightarrow> bool" where
  "is_valid (Rejected e raw) = False"
| "is_valid (Decoded p) = valid p"

record packet_inspector =
  packet_history :: "analysis list"
  max_history :: nat
  current_packet :: "analysis option"

definition packet_inspector_init :: packet_inspector where
  "packet_inspector_init =
     \<lparr>packet_history = [], max_history = 1000, current_packet = None\<rparr>"

subsection \<open>Per-type payload parsers\<close>

definition gear_map :: "int \<rightharpoonup> string" where
  "gear_map = [0 \<mapsto> ''High'', 1 \<mapsto> ''Mid'', 2 \<mapsto> ''Low'', 3 \<mapsto> ''Mid'']"

definition parse_main_data :: "byte list \<Rightarrow> parsed_data option" where
  "parse_main_data data = do {
     d2 \<leftarrow> byte_at data 2;
     let gear_bits = (drop_bit 2 d2) AND 3;
     let gear = (case gear_map gear_bits of None \<Rightarrow> ''Unknown'' | Some g \<Rightarrow> g);
     d4 \<leftarrow> byte_at data 4;
     d5 \<leftarrow> byte_at data 5;
     let rpm = (push_bit 8 d4) OR d5;
     d8 \<leftarrow> byte_at data 8;
     d9 \<leftarrow> byte_at data 9;
     let iq = real_of_int ((push_bit 8 d8) OR d9) / 100;
     d10 \<leftarrow> byte_at data 10;
     d11 \<leftarrow> byte_at data 11;
     let id = real_of_int ((push_bit 8 d10) OR d11) / 100;
     let is_mag = sqrt (iq * iq + id * id);
     Some (Main_data gear_bits gear rpm iq id is_mag)
   }"

definition parse_voltage_data :: "byte list \<Rightarrow> parsed_data option" where
  "parse_voltage_data data = do {
     d2 \<leftarrow> byte_at data 2;
     d3 \<leftarrow> byte_at data 3;
     let voltage_raw = (push_bit 8 d2) OR d3;
     let voltage = real_of_int voltage_raw / 10;
     Some (Voltage_data voltage_raw voltage)
   }"

definition parse_controller_temp_data :: "byte list \<Rightarrow> parsed_data option" where
  "parse_controller_temp_data data = do {
     temp \<leftarrow> byte_at data 2;
     Some (Controller_temp_data temp)
   }"

definition parse_motor_throttle_data :: "byte list \<Rightarrow> parsed_data option" where
  "parse_motor_throttle_data data = do {
     motor_temp \<leftarrow> byte_at data 2;
     d4 \<leftarrow> byte_at data 4;
     d5 \<leftarrow> byte_at data 5;
     let throttle_raw = (push_bit 8 d4) OR d5;
     let throttle_percent = (real_of_int throttle_raw / 4095) * 100;
     Some (Motor_throttle_data motor_temp throttle_raw throttle_percent)
   }"

text \<open>The \<^verbatim>\<open>if/elif\<close> chain of \<^verbatim>\<open>analyze_packet\<close> that selects the parser.\<close>

definition parse_by_index :: "int \<Rightarrow> byte list \<Rightarrow> parsed_data option" where
  "parse_by_index idx data =
     (if idx = 0 then parse_main_data data
      else if idx = 1 then parse_voltage_data data
      else if idx = 4 then parse_controller_temp_data data
      else if idx = 13 then parse_motor_throttle_data data
      else Some (Unknown_index idx))"

subsection \<open>The checksum loop\<close>

text \<open>\<^verbatim>\<open>for i in range(1, 14): expected_checksum ^= data[i]\<close>\<close>

fun checksum_loop :: "byte list \<Rightarrow> nat list \<Rightarrow> int \<Rightarrow> int option" where
  "checksum_loop data [] acc = Some acc"
| "checksum_loop data (i # rest) acc = do {
     b \<leftarrow> byte_at data i;
     checksum_loop data rest (acc XOR b)
   }"

subsection \<open>\<^verbatim>\<open>PacketInspector.analyze_packet\<close>\<close>

text \<open>
  The result is \<open>None\<close> when a read raises; otherwise the returned dictionary and the
  inspector after the call. \<open>now\<close> is the clock reading stored as the timestamp.
\<close>

definition store_in_history :: "packet_inspector \<Rightarrow> analysis \<Rightarrow> packet_inspector" where
  "store_in_history insp p =
     (let h = packet_history insp @ [p];
          h' = (if length h > max_history insp then tl h else h)
      in insp\<lparr>packet_history := h', current_packet := Some p\<rparr>)"

definition analyze_packet ::
  "real \<Rightarrow> packet_inspector \<Rightarrow> byte list \<Rightarrow> (analysis \<times> packet_inspector) option" where
  "analyze_packet now insp data =
     (if length data < 16 then
        Some (Rejected (Invalid_packet_length (length data)) data, insp)
      else do {
        d0 \<leftarrow> byte_at data 0;
        if d0 \<noteq> 0xAA then Some (Rejected (Invalid_header d0) data, insp)
        else do {
          idx \<leftarrow> byte_at data 1;
          cks \<leftarrow> byte_at data 14;
          rsv \<leftarrow> byte_at data 15;
          expected \<leftarrow> checksum_loop data [1..<14] 0;
          pd \<leftarrow> parse_by_index idx data;
          let info = \<lparr>valid = True, index = idx, raw_data = data,
                      checksum_valid = (cks = expected), checksum = cks,
                      expected_checksum = expected, reserved = rsv,
                      timestamp = now, parsed_data = pd\<rparr>;
          Some (Decoded info, store_in_history insp (Decoded info))
        }
      })"


text \<open>
  The inspector after a sequence of notifications, each with its clock reading, analysed one
  after the other as the notification callback does.
\<close>

fun analyze_all ::
  "packet_inspector \<Rightarrow> (real \<times> byte list) list \<Rightarrow> packet_inspector option" where
  "analyze_all insp [] = Some insp"
| "analyze_all insp ((now, data) # rest) = do {
     (packet_info, insp') \<leftarrow> analyze_packet now insp data;
     analyze_all insp' rest
   }"

subsection \<open>\<^verbatim>\<open>PacketInspector.get_packet_statistics\<close> and \<^verbatim>\<open>get_recent_packets\<close>\<close>

record packet_statistics =
  total_packets :: nat
  valid_packets :: nat
  checksum_errors :: nat
  index_distribution :: "int \<rightharpoonup> nat"
  error_rate :: real

text \<open>The loop over the history, carrying \<^verbatim>\<open>index_counts\<close> and \<^verbatim>\<open>checksum_errors\<close>.\<close>

fun statistics_loop :: "analysis list \<Rightarrow> (int \<rightharpoonup> nat) \<Rightarrow> nat \<Rightarrow> (int \<rightharpoonup> nat) \<times> nat" where
  "statistics_loop [] index_counts errs = (index_counts, errs)"
| "statistics_loop (Rejected e raw # rest) index_counts errs =
     statistics_loop rest index_counts errs"
| "statistics_loop (Decoded p # rest) index_counts errs =
     (if valid p then
        statistics_loop rest
          (index_counts(index p \<mapsto>
             (case index_counts (index p) of None \<Rightarrow> 0 | Some c \<Rightarrow> c) + 1))
          (if \<not> checksum_valid p then errs + 1 else errs)
      else statistics_loop rest index_counts errs)"

text \<open>The empty dictionary returned for an empty history is \<open>None\<close>.\<close>

definition get_packet_statistics :: "packet_inspector \<Rightarrow> packet_statistics option" where
  "get_packet_statistics insp =
     (if packet_history insp = [] then None
      else
        let total = length (packet_history insp);
            (index_counts, errs) = statistics_loop (packet_history insp) Map.empty 0
        in Some \<lparr>total_packets = total,
                 valid_packets = length (filter is_valid (packet_history insp)),
                 checksum_errors = errs,
                 index_distribution = index_counts,
                 error_rate = (if total > 0 then real errs / real total else 0)\<rparr>)"

text \<open>Python's slice \<^verbatim>\<open>xs[start:]\<close> for an arbitrary integer \<open>start\<close>.\<close>

definition slice_from :: "'a list \<Rightarrow> int \<Rightarrow> 'a list" where
  "slice_from xs start =
     (let n = int (length xs);
          s = (if start < 0 then max 0 (n + start) else min n start)
      in drop (nat s) xs)"

definition get_recent_packets :: "packet_inspector \<Rightarrow> int \<Rightarrow> analysis list" where
  "get_recent_packets insp count =
     (if packet_history insp \<noteq> [] then slice_from (packet_history insp) (- count) else [])"

subsection \<open>\<^verbatim>\<open>ControllerData\<close>\<close>

text \<open>
  The keys that the program passes to \<^verbatim>\<open>update_value\<close>, one per telemetry attribute.
  Python compares integers and floats numerically, so all telemetry values are reals.
\<close>

datatype key = Throttle | Gear | Rpm | Controller_temp | Motor_temp | Speed | Power | Voltage

record data_point =
  dp_timestamp :: real
  dp_throttle :: real
  dp_gear :: real
  dp_rpm :: real
  dp_controller_temp :: real
  dp_motor_temp :: real
  dp_speed :: real
  dp_power :: real
  dp_voltage :: real
  dp_packet_count :: nat
  dp_latency :: real

record controller_data =
  throttle :: real
  gear :: real
  rpm :: real
  controller_temp :: real
  motor_temp :: real
  speed :: real
  power :: real
  voltage :: real
  last_update :: real
  last_values :: "key \<rightharpoonup> real"
  has_changes_flag :: bool
  recording :: bool
  recorded_data :: "data_point list"
  packet_count :: nat
  packet_errors :: nat
  last_packet_time :: real
  avg_latency :: real
  latency_samples :: "real list"

definition controller_data_init :: "real \<Rightarrow> controller_data" where
  "controller_data_init now =
     \<lparr>throttle = 0, gear = 0, rpm = 0, controller_temp = 0, motor_temp = 0,
      speed = 0, power = 0, voltage = 0, last_update = now,
      last_values = Map.empty, has_changes_flag = False,
      recording = False, recorded_data = [],
      packet_count = 0, packet_errors = 0, last_packet_time = 0,
      avg_latency = 0, latency_samples = []\<rparr>"

fun setattr :: "controller_data \<Rightarrow> key \<Rightarrow> real \<Rightarrow> controller_data" where
  "setattr c Throttle v = c\<lparr>throttle := v\<rparr>"
| "setattr c Gear v = c\<lparr>gear := v\<rparr>"
| "setattr c Rpm v = c\<lparr>rpm := v\<rparr>"
| "setattr c Controller_temp v = c\<lparr>controller_temp := v\<rparr>"
| "setattr c Motor_temp v = c\<lparr>motor_temp := v\<rparr>"
| "setattr c Speed v = c\<lparr>speed := v\<rparr>"
| "setattr c Power v = c\<lparr>power := v\<rparr>"
| "setattr c Voltage v = c\<lparr>voltage := v\<rparr>"

fun getattr :: "controller_data \<Rightarrow> key \<Rightarrow> real" where
  "getattr c Throttle = throttle c"
| "getattr c Gear = gear c"
| "getattr c Rpm = rpm c"
| "getattr c Controller_temp = controller_temp c"
| "getattr c Motor_temp = motor_temp c"
| "getattr c Speed = speed c"
| "getattr c Power = power c"
| "getattr c Voltage = voltage c"

definition record_data_point :: "controller_data \<Rightarrow> real \<Rightarrow> controller_data" where
  "record_data_point c now =
     (if \<not> recording c then c
      else c\<lparr>recorded_data := recorded_data c @
             [\<lparr>dp_timestamp = now, dp_throttle = throttle c, dp_gear = gear c,
               dp_rpm = rpm c, dp_controller_temp = controller_temp c,
               dp_motor_temp = motor_temp c, dp_speed = speed c, dp_power = power c,
               dp_voltage = voltage c, dp_packet_count = packet_count c,
               dp_latency = avg_latency c\<rparr>]\<rparr>)"

definition update_value :: "controller_data \<Rightarrow> real \<Rightarrow> key \<Rightarrow> real \<Rightarrow> controller_data" where
  "update_value c now k v =
     (if last_values c k = None \<or> last_values c k \<noteq> Some v then
        let c1 = c\<lparr>last_values := (last_values c)(k \<mapsto> v)\<rparr>;
            c2 = c1\<lparr>has_changes_flag := True\<rparr>;
            c3 = setattr c2 k v;
            c4 = c3\<lparr>last_update := now\<rparr>
        in if recording c4 then record_data_point c4 now else c4
      else c)"

definition has_changes :: "controller_data \<Rightarrow> bool \<times> controller_data" where
  "has_changes c = (has_changes_flag c, c\<lparr>has_changes_flag := False\<rparr>)"

definition update_performance_metrics ::
  "controller_data \<Rightarrow> real \<Rightarrow> real \<Rightarrow> controller_data" where
  "update_performance_metrics c packet_time latency =
     (let samples = latency_samples c @ [latency];
          samples' = (if length samples > 100 then tl samples else samples)
      in c\<lparr>packet_count := packet_count c + 1,
           last_packet_time := packet_time,
           latency_samples := samples',
           avg_latency := sum_list samples' / real (length samples')\<rparr>)"


subsection \<open>The monitor's global state and \<^verbatim>\<open>message_handler\<close>\<close>

record monitor =
  ctr_data :: controller_data
  inspector :: packet_inspector
  is_connected :: bool
  terminal_paused :: bool

definition monitor_init :: "real \<Rightarrow> monitor" where
  "monitor_init now =
     \<lparr>ctr_data = controller_data_init now, inspector = packet_inspector_init,
      is_connected = False, terminal_paused = False\<rparr>"

text \<open>The branch \<^verbatim>\<open>if index == 0\<close> of \<^verbatim>\<open>message_handler\<close>.\<close>

definition handle_main_data :: "controller_data \<Rightarrow> real \<Rightarrow> byte list \<Rightarrow> controller_data option" where
  "handle_main_data c now data = do {
     d4 \<leftarrow> byte_at data 4;
     d5 \<leftarrow> byte_at data 5;
     let rpm_v = (push_bit 8 d4) OR d5;
     d2 \<leftarrow> byte_at data 2;
     let gear_bits = (drop_bit 2 d2) AND 3;
     let gear_v = max 1 (min 3 gear_bits);
     d8 \<leftarrow> byte_at data 8;
     d9 \<leftarrow> byte_at data 9;
     let iq = real_of_int ((push_bit 8 d8) OR d9) / 100;
     d10 \<leftarrow> byte_at data 10;
     d11 \<leftarrow> byte_at data 11;
     let id = real_of_int ((push_bit 8 d10) OR d11) / 100;
     let is_mag = sqrt (iq * iq + id * id);
     let power0 = - is_mag * voltage c;
     let power_v = (if iq < 0 \<or> id < 0 then - power0 else power0);
     let wheel_circumference = 1.350;
     let rear_wheel_rpm = real_of_int rpm_v / 4;
     let distance_per_min = rear_wheel_rpm * wheel_circumference;
     let speed_v = distance_per_min * 0.06;
     let c1 = update_value c now Rpm (real_of_int rpm_v);
     let c2 = update_value c1 now Gear (real_of_int gear_v);
     let c3 = update_value c2 now Power power_v;
     let c4 = update_value c3 now Speed speed_v;
     Some c4
   }"

text \<open>The chain \<^verbatim>\<open>if index == 0 ... elif index == 1 ... else\<close> of \<^verbatim>\<open>message_handler\<close>.\<close>

definition handle_by_index ::
  "controller_data \<Rightarrow> real \<Rightarrow> int \<Rightarrow> byte list \<Rightarrow> controller_data option" where
  "handle_by_index c now idx data =
     (if idx = 0 then handle_main_data c now data
      else if idx = 1 then do {
        d2 \<leftarrow> byte_at data 2;
        d3 \<leftarrow> byte_at data 3;
        let voltage_v = real_of_int ((push_bit 8 d2) OR d3) / 10;
        Some (update_value c now Voltage voltage_v)
      }
      else if idx = 4 then do {
        d2 \<leftarrow> byte_at data 2;
        Some (update_value c now Controller_temp (real_of_int d2))
      }
      else if idx = 13 then do {
        d2 \<leftarrow> byte_at data 2;
        d4 \<leftarrow> byte_at data 4;
        d5 \<leftarrow> byte_at data 5;
        let throttle_v = (push_bit 8 d4) OR d5;
        let c1 = update_value c now Motor_temp (real_of_int d2);
        Some (update_value c1 now Throttle (real_of_int throttle_v))
      }
      else Some c)"

text \<open>
  \<open>packet_start_time\<close> is the clock reading taken on entry, \<open>now\<close> stands for the later
  readings of the same call. The result is \<open>None\<close> when a read raises.
\<close>

definition message_handler :: "real \<Rightarrow> real \<Rightarrow> monitor \<Rightarrow> byte list \<Rightarrow> monitor option" where
  "message_handler packet_start_time now g data = do {
     (packet_info, insp) \<leftarrow> analyze_packet now (inspector g) data;
     let g1 = g\<lparr>inspector := insp\<rparr>;
     if length data < 16 then
       Some (g1\<lparr>ctr_data := (ctr_data g1)\<lparr>packet_errors := packet_errors (ctr_data g1) + 1\<rparr>\<rparr>)
     else do {
       d0 \<leftarrow> byte_at data 0;
       if d0 \<noteq> 0xAA then
         Some (g1\<lparr>ctr_data := (ctr_data g1)\<lparr>packet_errors := packet_errors (ctr_data g1) + 1\<rparr>\<rparr>)
       else do {
         idx \<leftarrow> byte_at data 1;
         let c1 = (ctr_data g1)\<lparr>last_update := now\<rparr>;
         let g2 = g1\<lparr>is_connected := True\<rparr>;
         let latency = (now - packet_start_time) * 1000;
         let c2 = update_performance_metrics c1 packet_start_time latency;
         c3 \<leftarrow> handle_by_index c2 now idx data;
         Some (g2\<lparr>ctr_data := c3\<rparr>)
       }
     }
   }"

subsection \<open>The display tick: reset on disconnect and connection status\<close>

text \<open>
  The data part of \<^verbatim>\<open>update_display\<close>: it returns whether the gauges are redrawn
  (\<^verbatim>\<open>data_changed\<close>) and the state after the tick.
\<close>

definition update_display :: "monitor \<Rightarrow> bool \<times> monitor" where
  "update_display g =
     (if terminal_paused g then (False, g)
      else
        let (data_changed, c) = has_changes (ctr_data g) in
        if \<not> is_connected g then
          (True, g\<lparr>ctr_data := c\<lparr>throttle := 0, gear := 0, rpm := 0, controller_temp := 0,
                                  motor_temp := 0, speed := 0, power := 0, voltage := 0\<rparr>\<rparr>)
        else (data_changed, g\<lparr>ctr_data := c\<rparr>))"







section \<open>Properties of the packet codec\<close>

subsection \<open>Reads, checksum loop and accepted frames\<close>

lemma byte_at_in_range: "i < length data \<Longrightarrow> byte_at data i = Some (uint (data ! i))"
  by (simp add: byte_at_def)

lemma byte_at_out_of_range: "length data \<le> i \<Longrightarrow> byte_at data i = None"
  by (simp add: byte_at_def)

lemma checksum_loop_in_range:
  "\<forall>i \<in> set idxs. i < length data \<Longrightarrow>
   checksum_loop data idxs acc = Some (fold (\<lambda>i a. a XOR uint (data ! i)) idxs acc)"
  by (induction idxs arbitrary: acc) (simp_all add: byte_at_in_range)

lemma fold_xor_uint:
  "fold (\<lambda>i a. a XOR uint (data ! i)) idxs (uint (w :: byte)) =
   uint (fold (\<lambda>i a. a XOR data ! i) idxs w)"
  by (induction idxs arbitrary: w) (simp_all add: uint_xor [symmetric])

lemma upt_1_14: "[1..<14] = [1, 2, 3, 4, 5, 6, 7, 8, 9, 10, 11, 12, 13 :: nat]"
  by code_simp

lemma expected_checksum_eq:
  assumes "14 \<le> length data"
  shows "checksum_loop data [1..<14] 0 =
         Some (uint (data ! 1 XOR data ! 2 XOR data ! 3 XOR data ! 4 XOR data ! 5 XOR data ! 6
                XOR data ! 7 XOR data ! 8 XOR data ! 9 XOR data ! 10 XOR data ! 11
                XOR data ! 12 XOR data ! 13))"
proof -
  have "\<forall>i \<in> set [1..<14]. i < length data" using assms by auto
  then have "checksum_loop data [1..<14] 0 =
      Some (fold (\<lambda>i a. a XOR uint (data ! i)) [1..<14] (uint (0 :: byte)))"
    by (simp add: checksum_loop_in_range)
  also have "\<dots> = Some (uint (fold (\<lambda>i a. a XOR data ! i) [1..<14] (0 :: byte)))"
    by (simp only: fold_xor_uint)
  also have "fold (\<lambda>i a. a XOR data ! i) [1..<14] (0 :: byte) =
      data ! 1 XOR data ! 2 XOR data ! 3 XOR data ! 4 XOR data ! 5 XOR data ! 6
                XOR data ! 7 XOR data ! 8 XOR data ! 9 XOR data ! 10 XOR data ! 11
                XOR data ! 12 XOR data ! 13"
    unfolding upt_1_14 by (simp add: ac_simps)
  finally show ?thesis .
qed

lemma parse_by_index_total:
  "12 \<le> length data \<Longrightarrow> \<exists>pd. parse_by_index idx data = Some pd"
  by (simp add: parse_by_index_def parse_main_data_def parse_voltage_data_def
      parse_controller_temp_data_def parse_motor_throttle_data_def byte_at_in_range Let_def)

lemma parse_by_index_ignores_checksum:
  "parse_by_index idx (data[14 := c]) = parse_by_index idx data"
  by (simp add: parse_by_index_def parse_main_data_def parse_voltage_data_def
      parse_controller_temp_data_def parse_motor_throttle_data_def byte_at_def)


lemma analyze_packet_accepted:
  assumes len: "16 \<le> length data" and hdr: "data ! 0 = 0xAA"
  shows "\<exists>info. analyze_packet now insp data =
            Some (Decoded info, store_in_history insp (Decoded info)) \<and>
          valid info \<and> index info = uint (data ! 1) \<and> raw_data info = data \<and>
          checksum info = uint (data ! 14) \<and> reserved info = uint (data ! 15) \<and>
          timestamp info = now \<and>
          checksum_valid info =
            (data ! 1 XOR data ! 2 XOR data ! 3 XOR data ! 4 XOR data ! 5 XOR data ! 6
             XOR data ! 7 XOR data ! 8 XOR data ! 9 XOR data ! 10 XOR data ! 11
             XOR data ! 12 XOR data ! 13 = data ! 14) \<and>
          parse_by_index (uint (data ! 1)) data = Some (parsed_data info)"
proof -
  from len obtain pd where pd: "parse_by_index (uint (data ! 1)) data = Some pd"
    using parse_by_index_total [of data "uint (data ! 1)"] by auto
  have cks: "checksum_loop data [1..<14] 0 =
         Some (uint (data ! 1 XOR data ! 2 XOR data ! 3 XOR data ! 4 XOR data ! 5 XOR data ! 6
                XOR data ! 7 XOR data ! 8 XOR data ! 9 XOR data ! 10 XOR data ! 11
                XOR data ! 12 XOR data ! 13))"
    using len by (intro expected_checksum_eq) simp
  have b0: "byte_at data 0 = Some 170"
    using len hdr by (auto simp add: byte_at_def)
  have b1: "byte_at data 1 = Some (uint (data ! 1))"
    and b14: "byte_at data 14 = Some (uint (data ! 14))"
    and b15: "byte_at data 15 = Some (uint (data ! 15))"
    using len by (simp_all add: byte_at_in_range)
  have "\<not> length data < 16" using len by simp
  with b0 b1 b14 b15 cks pd show ?thesis
    unfolding analyze_packet_def
    by (auto simp add: Let_def word_uint_eq_iff [symmetric] simp del: upt_rec_numeral)
qed

lemma analyze_packet_short:
  "length data < 16 \<Longrightarrow>
   analyze_packet now insp data =
     Some (Rejected (Invalid_packet_length (length data)) data, insp)"
  by (simp add: analyze_packet_def)

lemma analyze_packet_bad_header:
  assumes "16 \<le> length data" "data ! 0 \<noteq> 0xAA"
  shows "analyze_packet now insp data =
     Some (Rejected (Invalid_header (uint (data ! 0))) data, insp)"
proof -
  have "byte_at data 0 = Some (uint (data ! 0))"
    using assms by (auto simp add: byte_at_def)
  moreover have "uint (data ! 0) \<noteq> 170"
  proof
    assume "uint (data ! 0) = 170"
    then have "uint (data ! 0) = uint (0xAA :: byte)" by simp
    then have "data ! 0 = 0xAA" by (simp only: word_uint_eq_iff)
    with assms(2) show False by simp
  qed
  ultimately show ?thesis
    using assms by (simp add: analyze_packet_def)
qed

subsection \<open>Main data packets\<close>

lemma be16_eq:
  "push_bit 8 (uint (a :: byte)) OR uint (b :: byte) = uint a * 256 + uint b"
proof -
  have "push_bit 8 (uint a) AND uint b = 0"
    by (auto simp add: bit_eq_iff bit_simps dest: bit_imp_le_length)
  then have "push_bit 8 (uint a) + uint b = push_bit 8 (uint a) OR uint b"
    by (rule disjunctive_add_eq_or)
  then show ?thesis by (simp add: push_bit_eq_mult)
qed

lemma be16_range:
  "0 \<le> uint (a :: byte) * 256 + uint (b :: byte)"
  "uint (a :: byte) * 256 + uint (b :: byte) < 65536"
proof -
  have "uint a < 256" "uint b < 256"
    using uint_bounded [of a] uint_bounded [of b] by simp_all
  then show "uint a * 256 + uint b < 65536" by simp
  show "0 \<le> uint a * 256 + uint b" by simp
qed

lemma gear_bits_eq:
  "drop_bit 2 (uint (a :: byte)) AND 3 = uint a div 4 mod 4"
proof -
  have "(3 :: int) = mask 2" by (simp add: mask_eq_exp_minus_1)
  then have "drop_bit 2 (uint a) AND 3 = take_bit 2 (drop_bit 2 (uint a))"
    by (simp only: take_bit_eq_mask)
  then show ?thesis by (simp add: take_bit_eq_mod drop_bit_eq_div)
qed

lemma gear_map_mod4:
  "(case gear_map (x mod 4) of None \<Rightarrow> ''Unknown'' | Some g \<Rightarrow> g) =
   (if x mod 4 = 0 then ''High'' else if x mod 4 = 1 then ''Mid''
    else if x mod 4 = 2 then ''Low'' else ''Mid'')"
proof -
  have "0 \<le> x mod 4" "x mod 4 < 4" by simp_all
  then have "x mod 4 = 0 \<or> x mod 4 = 1 \<or> x mod 4 = 2 \<or> x mod 4 = 3" by arith
  then show ?thesis by (auto simp add: gear_map_def)
qed

lemma parse_main_data_eq:
  assumes "12 \<le> length data"
  shows "parse_main_data data =
     Some (Main_data (uint (data ! 2) div 4 mod 4)
        (if uint (data ! 2) div 4 mod 4 = 0 then ''High''
         else if uint (data ! 2) div 4 mod 4 = 1 then ''Mid''
         else if uint (data ! 2) div 4 mod 4 = 2 then ''Low'' else ''Mid'')
        (uint (data ! 4) * 256 + uint (data ! 5))
        (real_of_int (uint (data ! 8) * 256 + uint (data ! 9)) / 100)
        (real_of_int (uint (data ! 10) * 256 + uint (data ! 11)) / 100)
        (sqrt ((real_of_int (uint (data ! 8) * 256 + uint (data ! 9)) / 100) *
               (real_of_int (uint (data ! 8) * 256 + uint (data ! 9)) / 100) +
               (real_of_int (uint (data ! 10) * 256 + uint (data ! 11)) / 100) *
               (real_of_int (uint (data ! 10) * 256 + uint (data ! 11)) / 100))))"
  using assms
  by (simp add: parse_main_data_def byte_at_in_range Let_def be16_eq gear_bits_eq
      gear_map_mod4 del: of_int_add of_int_mult)


text \<open>
  Claim C2. For every accepted frame with type index 0 the parsed payload holds
  \<open>gear_bits = (byte2 >> 2) & 3\<close> (that is \<open>byte2 div 4 mod 4\<close>) with the gear name
  High, Mid, Low, Mid for 0, 1, 2, 3; \<open>rpm = byte4 * 256 + byte5\<close>, an unsigned 16-bit
  value; \<open>iq = (byte8 * 256 + byte9) / 100\<close>; \<open>id = (byte10 * 256 + byte11) / 100\<close>; and
  the current magnitude \<open>sqrt (iq\<^sup>2 + id\<^sup>2)\<close>. The checksum flag is set when byte 14 matches.
  The witness is the example frame with bytes 4..5 = 13 88 and bytes 8..9 = 27 10, completed
  to 16 bytes with the matching checksum \<open>0xA8\<close>: rpm 5000 and iq 100.
\<close>

theorem main_data_decoding:
  assumes "16 \<le> length data" and "data ! 0 = 0xAA" and "data ! 1 = 0"
  shows "\<exists>info. analyze_packet now insp data =
            Some (Decoded info, store_in_history insp (Decoded info)) \<and>
          (let gear_bits = uint (data ! 2) div 4 mod 4;
               rpm_v = uint (data ! 4) * 256 + uint (data ! 5);
               iq = real_of_int (uint (data ! 8) * 256 + uint (data ! 9)) / 100;
               id = real_of_int (uint (data ! 10) * 256 + uint (data ! 11)) / 100
           in parsed_data info =
                Main_data gear_bits
                  (if gear_bits = 0 then ''High'' else if gear_bits = 1 then ''Mid''
                   else if gear_bits = 2 then ''Low'' else ''Mid'')
                  rpm_v iq id (sqrt (iq * iq + id * id)) \<and>
              0 \<le> rpm_v \<and> rpm_v < 65536) \<and>
          (data ! 1 XOR data ! 2 XOR data ! 3 XOR data ! 4 XOR data ! 5 XOR data ! 6
             XOR data ! 7 XOR data ! 8 XOR data ! 9 XOR data ! 10 XOR data ! 11
             XOR data ! 12 XOR data ! 13 = data ! 14 \<longrightarrow> checksum_valid info)"
proof -
  from analyze_packet_accepted [OF assms(1,2), of now insp]
  obtain info where a: "analyze_packet now insp data =
            Some (Decoded info, store_in_history insp (Decoded info))"
    and c: "checksum_valid info =
            (data ! 1 XOR data ! 2 XOR data ! 3 XOR data ! 4 XOR data ! 5 XOR data ! 6
             XOR data ! 7 XOR data ! 8 XOR data ! 9 XOR data ! 10 XOR data ! 11
             XOR data ! 12 XOR data ! 13 = data ! 14)"
    and p: "parse_by_index (uint (data ! 1)) data = Some (parsed_data info)"
    by blast
  from assms(3) have "parse_by_index (uint (data ! 1)) data = parse_main_data data"
    by (simp add: parse_by_index_def)
  with p have "parse_main_data data = Some (parsed_data info)" by simp
  moreover from assms(1) have "12 \<le> length data" by simp
  ultimately have "parsed_data info =
      Main_data (uint (data ! 2) div 4 mod 4)
        (if uint (data ! 2) div 4 mod 4 = 0 then ''High''
         else if uint (data ! 2) div 4 mod 4 = 1 then ''Mid''
         else if uint (data ! 2) div 4 mod 4 = 2 then ''Low'' else ''Mid'')
        (uint (data ! 4) * 256 + uint (data ! 5))
        (real_of_int (uint (data ! 8) * 256 + uint (data ! 9)) / 100)
        (real_of_int (uint (data ! 10) * 256 + uint (data ! 11)) / 100)
        (sqrt ((real_of_int (uint (data ! 8) * 256 + uint (data ! 9)) / 100) *
               (real_of_int (uint (data ! 8) * 256 + uint (data ! 9)) / 100) +
               (real_of_int (uint (data ! 10) * 256 + uint (data ! 11)) / 100) *
               (real_of_int (uint (data ! 10) * 256 + uint (data ! 11)) / 100)))"
    by (simp only: parse_main_data_eq option.inject)
  with a c be16_range [of "data ! 4" "data ! 5"] show ?thesis
    by (simp only: Let_def) blast
qed

lemma sqrt_10000: "sqrt 10000 = 100"
  by (rule real_sqrt_unique) simp_all

theorem main_data_decoding_witness:
  "16 \<le> length [0xAA, 0, 4, 0, 0x13, 0x88, 0, 0, 0x27, 0x10, 0, 0, 0, 0, 0xA8, 0 :: byte] \<and>
   [0xAA, 0, 4, 0, 0x13, 0x88, 0, 0, 0x27, 0x10, 0, 0, 0, 0, 0xA8, 0 :: byte] ! 0 = 0xAA \<and>
   [0xAA, 0, 4, 0, 0x13, 0x88, 0, 0, 0x27, 0x10, 0, 0, 0, 0, 0xA8, 0 :: byte] ! 1 = 0 \<and>
   (\<exists>info. analyze_packet 0 packet_inspector_init
              [0xAA, 0, 4, 0, 0x13, 0x88, 0, 0, 0x27, 0x10, 0, 0, 0, 0, 0xA8, 0] =
            Some (Decoded info, store_in_history packet_inspector_init (Decoded info)) \<and>
          parsed_data info = Main_data 1 ''Mid'' 5000 100 0 100 \<and> checksum_valid info)"
  using main_data_decoding
    [of "[0xAA, 0, 4, 0, 0x13, 0x88, 0, 0, 0x27, 0x10, 0, 0, 0, 0, 0xA8, 0]"
        0 packet_inspector_init]
  by (auto simp add: sqrt_10000)

subsection \<open>Checksum flag and decoding\<close>

lemma parse_by_index_eq:
  assumes "12 \<le> length data"
  shows "parse_by_index idx data =
     Some (if idx = 0 then
             Main_data (uint (data ! 2) div 4 mod 4)
               (if uint (data ! 2) div 4 mod 4 = 0 then ''High''
                else if uint (data ! 2) div 4 mod 4 = 1 then ''Mid''
                else if uint (data ! 2) div 4 mod 4 = 2 then ''Low'' else ''Mid'')
               (uint (data ! 4) * 256 + uint (data ! 5))
               (real_of_int (uint (data ! 8) * 256 + uint (data ! 9)) / 100)
               (real_of_int (uint (data ! 10) * 256 + uint (data ! 11)) / 100)
               (sqrt ((real_of_int (uint (data ! 8) * 256 + uint (data ! 9)) / 100) *
                      (real_of_int (uint (data ! 8) * 256 + uint (data ! 9)) / 100) +
                      (real_of_int (uint (data ! 10) * 256 + uint (data ! 11)) / 100) *
                      (real_of_int (uint (data ! 10) * 256 + uint (data ! 11)) / 100)))
           else if idx = 1 then
             Voltage_data (uint (data ! 2) * 256 + uint (data ! 3))
               (real_of_int (uint (data ! 2) * 256 + uint (data ! 3)) / 10)
           else if idx = 4 then Controller_temp_data (uint (data ! 2))
           else if idx = 13 then
             Motor_throttle_data (uint (data ! 2)) (uint (data ! 4) * 256 + uint (data ! 5))
               (real_of_int (uint (data ! 4) * 256 + uint (data ! 5)) / 4095 * 100)
           else Unknown_index idx)"
proof -
  have v: "parse_voltage_data data =
      Some (Voltage_data (uint (data ! 2) * 256 + uint (data ! 3))
               (real_of_int (uint (data ! 2) * 256 + uint (data ! 3)) / 10))"
    using assms
    by (simp add: parse_voltage_data_def byte_at_in_range Let_def be16_eq
        del: of_int_add of_int_mult)
  have t: "parse_controller_temp_data data = Some (Controller_temp_data (uint (data ! 2)))"
    using assms by (simp add: parse_controller_temp_data_def byte_at_in_range)
  have m: "parse_motor_throttle_data data =
      Some (Motor_throttle_data (uint (data ! 2)) (uint (data ! 4) * 256 + uint (data ! 5))
               (real_of_int (uint (data ! 4) * 256 + uint (data ! 5)) / 4095 * 100))"
    using assms
    by (simp add: parse_motor_throttle_data_def byte_at_in_range Let_def be16_eq
        del: of_int_add of_int_mult)
  show ?thesis
    unfolding parse_by_index_def
    by (simp only: parse_main_data_eq [OF assms] v t m if_distrib [of Some] split: if_split)
qed


text \<open>
  Claim C1. For every 16-byte frame whose byte 0 is \<open>0xAA\<close>, \<^verbatim>\<open>analyze_packet\<close> returns a
  decoded packet, whatever the type index, whose \<open>checksum_valid\<close> flag is true exactly
  when the XOR of bytes 1 to 13 equals byte 14. A mismatch does not block decoding: whether
  the flag is true or false, the packet carries the fully decoded payload of its type (main
  data, voltage, controller temperature, motor temperature and throttle, or the unknown
  index), computed from bytes 2 to 11 alone; the same frame with any other checksum byte
  \<open>c\<close> decodes to the same payload.
\<close>

theorem checksum_valid_iff_xor:
  assumes "length data = 16" and "data ! 0 = 0xAA"
  shows "\<exists>info. analyze_packet now insp data =
            Some (Decoded info, store_in_history insp (Decoded info)) \<and>
          valid info \<and> index info = uint (data ! 1) \<and> raw_data info = data \<and>
          checksum_valid info =
            (data ! 1 XOR data ! 2 XOR data ! 3 XOR data ! 4 XOR data ! 5 XOR data ! 6
             XOR data ! 7 XOR data ! 8 XOR data ! 9 XOR data ! 10 XOR data ! 11
             XOR data ! 12 XOR data ! 13 = data ! 14) \<and>
          parsed_data info =
            (if uint (data ! 1) = 0 then
               Main_data (uint (data ! 2) div 4 mod 4)
                 (if uint (data ! 2) div 4 mod 4 = 0 then ''High''
                  else if uint (data ! 2) div 4 mod 4 = 1 then ''Mid''
                  else if uint (data ! 2) div 4 mod 4 = 2 then ''Low'' else ''Mid'')
                 (uint (data ! 4) * 256 + uint (data ! 5))
                 (real_of_int (uint (data ! 8) * 256 + uint (data ! 9)) / 100)
                 (real_of_int (uint (data ! 10) * 256 + uint (data ! 11)) / 100)
                 (sqrt ((real_of_int (uint (data ! 8) * 256 + uint (data ! 9)) / 100) *
                        (real_of_int (uint (data ! 8) * 256 + uint (data ! 9)) / 100) +
                        (real_of_int (uint (data ! 10) * 256 + uint (data ! 11)) / 100) *
                        (real_of_int (uint (data ! 10) * 256 + uint (data ! 11)) / 100)))
             else if uint (data ! 1) = 1 then
               Voltage_data (uint (data ! 2) * 256 + uint (data ! 3))
                 (real_of_int (uint (data ! 2) * 256 + uint (data ! 3)) / 10)
             else if uint (data ! 1) = 4 then Controller_temp_data (uint (data ! 2))
             else if uint (data ! 1) = 13 then
               Motor_throttle_data (uint (data ! 2)) (uint (data ! 4) * 256 + uint (data ! 5))
                 (real_of_int (uint (data ! 4) * 256 + uint (data ! 5)) / 4095 * 100)
             else Unknown_index (uint (data ! 1))) \<and>
          (\<exists>info'. analyze_packet now insp (data[14 := c]) =
               Some (Decoded info', store_in_history insp (Decoded info')) \<and>
             checksum_valid info' =
               (data ! 1 XOR data ! 2 XOR data ! 3 XOR data ! 4 XOR data ! 5 XOR data ! 6
                XOR data ! 7 XOR data ! 8 XOR data ! 9 XOR data ! 10 XOR data ! 11
                XOR data ! 12 XOR data ! 13 = c) \<and>
             index info' = index info \<and> parsed_data info' = parsed_data info)"
proof -
  from assms have len: "16 \<le> length data" and len12: "12 \<le> length data" by simp_all
  from analyze_packet_accepted [OF len assms(2), of now insp]
  obtain info where a: "analyze_packet now insp data =
            Some (Decoded info, store_in_history insp (Decoded info))"
    and v: "valid info" and i: "index info = uint (data ! 1)" and r: "raw_data info = data"
    and c: "checksum_valid info =
            (data ! 1 XOR data ! 2 XOR data ! 3 XOR data ! 4 XOR data ! 5 XOR data ! 6
             XOR data ! 7 XOR data ! 8 XOR data ! 9 XOR data ! 10 XOR data ! 11
             XOR data ! 12 XOR data ! 13 = data ! 14)"
    and p: "parse_by_index (uint (data ! 1)) data = Some (parsed_data info)"
    by blast
  let ?d = "data[14 := c]"
  have len': "16 \<le> length ?d" and hdr': "?d ! 0 = 0xAA"
    using len assms(2) by simp_all
  from analyze_packet_accepted [OF len' hdr', of now insp]
  obtain info' where a': "analyze_packet now insp ?d =
            Some (Decoded info', store_in_history insp (Decoded info'))"
    and i': "index info' = uint (?d ! 1)"
    and c': "checksum_valid info' =
            (?d ! 1 XOR ?d ! 2 XOR ?d ! 3 XOR ?d ! 4 XOR ?d ! 5 XOR ?d ! 6
             XOR ?d ! 7 XOR ?d ! 8 XOR ?d ! 9 XOR ?d ! 10 XOR ?d ! 11
             XOR ?d ! 12 XOR ?d ! 13 = ?d ! 14)"
    and p': "parse_by_index (uint (?d ! 1)) ?d = Some (parsed_data info')"
    by blast
  from p' p have same: "parsed_data info' = parsed_data info"
    by (simp add: parse_by_index_ignores_checksum)
  from i' i have idx: "index info' = index info" by simp
  from c' len have flag: "checksum_valid info' =
            (data ! 1 XOR data ! 2 XOR data ! 3 XOR data ! 4 XOR data ! 5 XOR data ! 6
             XOR data ! 7 XOR data ! 8 XOR data ! 9 XOR data ! 10 XOR data ! 11
             XOR data ! 12 XOR data ! 13 = c)"
    by simp
  from p have pd: "parsed_data info =
            (if uint (data ! 1) = 0 then
               Main_data (uint (data ! 2) div 4 mod 4)
                 (if uint (data ! 2) div 4 mod 4 = 0 then ''High''
                  else if uint (data ! 2) div 4 mod 4 = 1 then ''Mid''
                  else if uint (data ! 2) div 4 mod 4 = 2 then ''Low'' else ''Mid'')
                 (uint (data ! 4) * 256 + uint (data ! 5))
                 (real_of_int (uint (data ! 8) * 256 + uint (data ! 9)) / 100)
                 (real_of_int (uint (data ! 10) * 256 + uint (data ! 11)) / 100)
                 (sqrt ((real_of_int (uint (data ! 8) * 256 + uint (data ! 9)) / 100) *
                        (real_of_int (uint (data ! 8) * 256 + uint (data ! 9)) / 100) +
                        (real_of_int (uint (data ! 10) * 256 + uint (data ! 11)) / 100) *
                        (real_of_int (uint (data ! 10) * 256 + uint (data ! 11)) / 100)))
             else if uint (data ! 1) = 1 then
               Voltage_data (uint (data ! 2) * 256 + uint (data ! 3))
                 (real_of_int (uint (data ! 2) * 256 + uint (data ! 3)) / 10)
             else if uint (data ! 1) = 4 then Controller_temp_data (uint (data ! 2))
             else if uint (data ! 1) = 13 then
               Motor_throttle_data (uint (data ! 2)) (uint (data ! 4) * 256 + uint (data ! 5))
                 (real_of_int (uint (data ! 4) * 256 + uint (data ! 5)) / 4095 * 100)
             else Unknown_index (uint (data ! 1)))"
    by (simp only: parse_by_index_eq [OF len12] option.inject)
  from a v i r c pd a' flag idx same show ?thesis by blast
qed

theorem checksum_valid_iff_xor_witness:
  "length [0xAA, 0, 4, 0, 0x13, 0x88, 0, 0, 0x27, 0x10, 0, 0, 0, 0, 0x55, 0 :: byte] = 16 \<and>
   [0xAA, 0, 4, 0, 0x13, 0x88, 0, 0, 0x27, 0x10, 0, 0, 0, 0, 0x55, 0 :: byte] ! 0 = 0xAA \<and>
   (\<exists>info. analyze_packet 0 packet_inspector_init
              [0xAA, 0, 4, 0, 0x13, 0x88, 0, 0, 0x27, 0x10, 0, 0, 0, 0, 0x55, 0] =
            Some (Decoded info, store_in_history packet_inspector_init (Decoded info)) \<and>
          valid info \<and> index info = 0 \<and> \<not> checksum_valid info \<and>
          parsed_data info = Main_data 1 ''Mid'' 5000 100 0 100) \<and>
   (\<exists>info'. analyze_packet 0 packet_inspector_init
              [0xAA, 0, 4, 0, 0x13, 0x88, 0, 0, 0x27, 0x10, 0, 0, 0, 0, 0xA8, 0] =
            Some (Decoded info', store_in_history packet_inspector_init (Decoded info')) \<and>
          checksum_valid info' \<and>
          parsed_data info' = Main_data 1 ''Mid'' 5000 100 0 100)"
  using checksum_valid_iff_xor
    [of "[0xAA, 0, 4, 0, 0x13, 0x88, 0, 0, 0x27, 0x10, 0, 0, 0, 0, 0x55, 0]"
        0 packet_inspector_init "0xA8"]
  by (auto simp add: sqrt_10000)

subsection \<open>Frame length\<close>

lemma analyze_packet_total: "\<exists>r. analyze_packet now insp data = Some r"
proof (cases "length data < 16")
  case True
  then show ?thesis by (simp add: analyze_packet_short)
next
  case False
  then have len: "16 \<le> length data" by simp
  show ?thesis
  proof (cases "data ! 0 = 0xAA")
    case True
    from analyze_packet_accepted [OF len True, of now insp] show ?thesis by blast
  next
    case False
    from analyze_packet_bad_header [OF len False, of now insp] show ?thesis by blast
  qed
qed

lemma handle_by_index_total:
  "12 \<le> length data \<Longrightarrow> \<exists>c'. handle_by_index c now idx data = Some c'"
  by (simp add: handle_by_index_def handle_main_data_def byte_at_in_range Let_def)

lemma message_handler_short:
  "length data < 16 \<Longrightarrow>
   message_handler t0 now g data =
     Some (g\<lparr>ctr_data := (ctr_data g)\<lparr>packet_errors := packet_errors (ctr_data g) + 1\<rparr>\<rparr>)"
  by (simp add: message_handler_def analyze_packet_short)

lemma message_handler_bad_header:
  assumes "16 \<le> length data" "data ! 0 \<noteq> 0xAA"
  shows "message_handler t0 now g data =
     Some (g\<lparr>ctr_data := (ctr_data g)\<lparr>packet_errors := packet_errors (ctr_data g) + 1\<rparr>\<rparr>)"
proof -
  have "byte_at data 0 = Some (uint (data ! 0))"
    using assms by (auto simp add: byte_at_def)
  moreover have "uint (data ! 0) \<noteq> 170"
  proof
    assume "uint (data ! 0) = 170"
    then have "uint (data ! 0) = uint (0xAA :: byte)" by simp
    then have "data ! 0 = 0xAA" by (simp only: word_uint_eq_iff)
    with assms(2) show False by simp
  qed
  ultimately show ?thesis
    using assms by (simp add: message_handler_def analyze_packet_bad_header)
qed

lemma message_handler_accepted:
  assumes len: "16 \<le> length data" and hdr: "data ! 0 = 0xAA"
  shows "\<exists>info c'.
      analyze_packet now (inspector g) data =
        Some (Decoded info, store_in_history (inspector g) (Decoded info)) \<and>
      handle_by_index
        (update_performance_metrics ((ctr_data g)\<lparr>last_update := now\<rparr>) t0
           ((now - t0) * 1000)) now (uint (data ! 1)) data = Some c' \<and>
      message_handler t0 now g data =
        Some (g\<lparr>inspector := store_in_history (inspector g) (Decoded info),
                is_connected := True, ctr_data := c'\<rparr>)"
proof -
  from analyze_packet_accepted [OF len hdr, of now "inspector g"]
  obtain info where a: "analyze_packet now (inspector g) data =
        Some (Decoded info, store_in_history (inspector g) (Decoded info))" by blast
  from len have "12 \<le> length data" by simp
  from handle_by_index_total [OF this]
  obtain c' where h: "handle_by_index
        (update_performance_metrics ((ctr_data g)\<lparr>last_update := now\<rparr>) t0
           ((now - t0) * 1000)) now (uint (data ! 1)) data = Some c'" by blast
  have b0: "byte_at data 0 = Some 170"
    using len hdr by (auto simp add: byte_at_def)
  have b1: "byte_at data 1 = Some (uint (data ! 1))"
    using len by (simp add: byte_at_in_range)
  have "\<not> length data < 16" using len by simp
  with a h b0 b1 have "message_handler t0 now g data =
        Some (g\<lparr>inspector := store_in_history (inspector g) (Decoded info),
                is_connected := True, ctr_data := c'\<rparr>)"
    by (simp add: message_handler_def Let_def)
  with a h show ?thesis by blast
qed

lemma message_handler_total: "\<exists>g'. message_handler t0 now g data = Some g'"
proof (cases "length data < 16")
  case True
  then show ?thesis by (simp add: message_handler_short)
next
  case False
  then have len: "16 \<le> length data" by simp
  show ?thesis
  proof (cases "data ! 0 = 0xAA")
    case True
    from message_handler_accepted [OF len True, of now g t0] show ?thesis by blast
  next
    case False
    from message_handler_bad_header [OF len False, of t0 now g] show ?thesis by blast
  qed
qed

text \<open>
  Claim C4, as amended. The guard of \<^verbatim>\<open>analyze_packet\<close> and of \<^verbatim>\<open>message_handler\<close> is
  \<^verbatim>\<open>len(data) < 16\<close>. Every byte sequence shorter than 16 bytes is rejected with the
  invalid-length error: no parser runs, the history and the telemetry fields stay as they
  are and only the error counter grows. Whatever the length, no read leaves the provided
  bytes: neither function ever raises.
\<close>

theorem short_frame_rejected:
  "(length data < 16 \<longrightarrow>
      analyze_packet now insp data =
        Some (Rejected (Invalid_packet_length (length data)) data, insp) \<and>
      message_handler t0 now g data =
        Some (g\<lparr>ctr_data := (ctr_data g)\<lparr>packet_errors := packet_errors (ctr_data g) + 1\<rparr>\<rparr>)) \<and>
   analyze_packet now insp data \<noteq> None \<and>
   message_handler t0 now g data \<noteq> None"
  using analyze_packet_total [of now insp data] message_handler_total [of t0 now g data]
  by (auto simp add: analyze_packet_short message_handler_short)

theorem short_frame_rejected_witness:
  "length [0xAA, 0, 4 :: byte] < 16 \<and>
   analyze_packet 0 packet_inspector_init [0xAA, 0, 4] =
     Some (Rejected (Invalid_packet_length 3) [0xAA, 0, 4], packet_inspector_init) \<and>
   message_handler 0 0 (monitor_init 0) [0xAA, 0, 4] =
     Some ((monitor_init 0)\<lparr>ctr_data := (ctr_data (monitor_init 0))\<lparr>packet_errors := 1\<rparr>\<rparr>)"
  using short_frame_rejected [of "[0xAA, 0, 4]" 0 packet_inspector_init 0 "monitor_init 0"]
  by (simp add: monitor_init_def controller_data_init_def)

text \<open>
  A frame of 17 bytes does not have length 16, and it is decoded: the claim as stated, with
  "length not exactly 16", fails on it.
\<close>

theorem long_frame_decoded:
  "length [0xAA, 4, 25, 0, 0, 0, 0, 0, 0, 0, 0, 0, 0, 0, 29, 0, 0xFF :: byte] \<noteq> 16 \<and>
   map_option fst (analyze_packet 0 packet_inspector_init
     [0xAA, 4, 25, 0, 0, 0, 0, 0, 0, 0, 0, 0, 0, 0, 29, 0, 0xFF]) =
   Some (Decoded \<lparr>valid = True, index = 4,
      raw_data = [0xAA, 4, 25, 0, 0, 0, 0, 0, 0, 0, 0, 0, 0, 0, 29, 0, 0xFF],
      checksum_valid = True, checksum = 29, expected_checksum = 29, reserved = 0,
      timestamp = 0, parsed_data = Controller_temp_data 25\<rparr>)"
proof -
  have "checksum_loop [0xAA, 4, 25, 0, 0, 0, 0, 0, 0, 0, 0, 0, 0, 0, 29, 0, 0xFF] [1..<14] 0 =
      Some 29"
    using expected_checksum_eq [of "[0xAA, 4, 25, 0, 0, 0, 0, 0, 0, 0, 0, 0, 0, 0, 29, 0, 0xFF]"]
    by simp
  then show ?thesis
    by (simp add: analyze_packet_def byte_at_def parse_by_index_def
        parse_controller_temp_data_def Let_def del: upt_rec_numeral)
qed

section \<open>Properties of the telemetry store\<close>

subsection \<open>Compare-and-set updates\<close>

lemma update_value_noop:
  "last_values c k = Some v \<Longrightarrow> update_value c now k v = c"
  by (simp add: update_value_def)

lemma update_value_shadow:
  "last_values (update_value c now k v) = (last_values c)(k \<mapsto> v)"
  by (cases k) (auto simp add: update_value_def record_data_point_def Let_def map_upd_triv)

lemma update_value_flag:
  "has_changes_flag (update_value c now k v) =
     (has_changes_flag c \<or> last_values c k \<noteq> Some v)"
  by (cases k) (auto simp add: update_value_def record_data_point_def Let_def)

lemma update_value_voltage:
  "k \<noteq> Voltage \<Longrightarrow> voltage (update_value c now k v) = voltage c"
  by (cases k) (auto simp add: update_value_def record_data_point_def Let_def)

lemma update_value_changed:
  assumes "last_values c k \<noteq> Some v"
  shows "getattr (update_value c now k v) k = v"
    and "last_update (update_value c now k v) = now"
    and "recording (update_value c now k v) = recording c"
    and "recorded_data (update_value c now k v) =
           (if recording c then
              recorded_data c @
                [\<lparr>dp_timestamp = now,
                  dp_throttle = throttle (update_value c now k v),
                  dp_gear = gear (update_value c now k v),
                  dp_rpm = rpm (update_value c now k v),
                  dp_controller_temp = controller_temp (update_value c now k v),
                  dp_motor_temp = motor_temp (update_value c now k v),
                  dp_speed = speed (update_value c now k v),
                  dp_power = power (update_value c now k v),
                  dp_voltage = voltage (update_value c now k v),
                  dp_packet_count = packet_count c, dp_latency = avg_latency c\<rparr>]
            else recorded_data c)"
  using assms
  by (cases k; auto simp add: update_value_def record_data_point_def Let_def)+


lemma handle_by_index_idem:
  assumes "12 \<le> length data"
    and "handle_by_index c now idx data = Some c'"
    and "last_values d = last_values c'" and "voltage d = voltage c'"
  shows "handle_by_index d now2 idx data = Some d"
  using assms
  by (auto simp add: handle_by_index_def handle_main_data_def byte_at_in_range Let_def
      update_value_shadow update_value_voltage update_value_noop)

lemma handle_by_index_flag:
  assumes "12 \<le> length data"
    and "handle_by_index c now idx data = Some c'"
  shows "has_changes_flag c' = (has_changes_flag c \<or> last_values c' \<noteq> last_values c)"
  using assms
  by (auto simp add: handle_by_index_def handle_main_data_def byte_at_in_range Let_def
      update_value_shadow update_value_flag fun_eq_iff split: if_splits)


lemma getattr_other_fields:
  "getattr (c\<lparr>last_update := x\<rparr>) k = getattr c k"
  "getattr (c\<lparr>has_changes_flag := b\<rparr>) k = getattr c k"
  "getattr (c\<lparr>packet_errors := n\<rparr>) k = getattr c k"
  by (cases k; simp)+

lemma update_performance_metrics_keeps:
  "last_values (update_performance_metrics c t l) = last_values c"
  "has_changes_flag (update_performance_metrics c t l) = has_changes_flag c"
  "getattr (update_performance_metrics c t l) k = getattr c k"
  "voltage (update_performance_metrics c t l) = voltage c"
  "recording (update_performance_metrics c t l) = recording c"
  "recorded_data (update_performance_metrics c t l) = recorded_data c"
  by (cases k; simp add: update_performance_metrics_def Let_def)+

lemma message_handler_flag:
  assumes "message_handler t0 now g data = Some g1"
  shows "has_changes_flag (ctr_data g1) =
     (has_changes_flag (ctr_data g) \<or> last_values (ctr_data g1) \<noteq> last_values (ctr_data g))"
proof (cases "16 \<le> length data \<and> data ! 0 = 0xAA")
  case True
  then have len: "16 \<le> length data" and hdr: "data ! 0 = 0xAA" by simp_all
  from message_handler_accepted [OF len hdr, of now g t0] assms
  obtain c' where h: "handle_by_index
        (update_performance_metrics ((ctr_data g)\<lparr>last_update := now\<rparr>) t0
           ((now - t0) * 1000)) now (uint (data ! 1)) data = Some c'"
    and g1: "ctr_data g1 = c'" by auto
  from len have "12 \<le> length data" by simp
  from handle_by_index_flag [OF this h] g1 show ?thesis
    by (simp add: update_performance_metrics_keeps)
next
  case False
  then have "length data < 16 \<or> (16 \<le> length data \<and> data ! 0 \<noteq> 0xAA)" by auto
  with assms have "g1 = g\<lparr>ctr_data := (ctr_data g)\<lparr>packet_errors := packet_errors (ctr_data g) + 1\<rparr>\<rparr>"
    by (auto simp add: message_handler_short message_handler_bad_header)
  then show ?thesis by simp
qed

lemma message_handler_repeat:
  assumes first: "message_handler t0 now g data = Some g1"
    and same: "last_values (ctr_data h) = last_values (ctr_data g1)"
      "voltage (ctr_data h) = voltage (ctr_data g1)"
    and second: "message_handler t1 now' h data = Some h2"
  shows "has_changes_flag (ctr_data h2) = has_changes_flag (ctr_data h) \<and>
         last_values (ctr_data h2) = last_values (ctr_data h) \<and>
         getattr (ctr_data h2) k = getattr (ctr_data h) k \<and>
         recorded_data (ctr_data h2) = recorded_data (ctr_data h)"
proof (cases "16 \<le> length data \<and> data ! 0 = 0xAA")
  case True
  then have len: "16 \<le> length data" and hdr: "data ! 0 = 0xAA" by simp_all
  from len have len12: "12 \<le> length data" by simp
  from message_handler_accepted [OF len hdr, of now g t0] first
  obtain c' where h1: "handle_by_index
        (update_performance_metrics ((ctr_data g)\<lparr>last_update := now\<rparr>) t0
           ((now - t0) * 1000)) now (uint (data ! 1)) data = Some c'"
    and g1: "ctr_data g1 = c'" by auto
  let ?d = "update_performance_metrics ((ctr_data h)\<lparr>last_update := now'\<rparr>) t1
           ((now' - t1) * 1000)"
  have "last_values ?d = last_values c'" "voltage ?d = voltage c'"
    using same g1 by (simp_all add: update_performance_metrics_keeps)
  from handle_by_index_idem [OF len12 h1 this]
  have "handle_by_index ?d now' (uint (data ! 1)) data = Some ?d" .
  with message_handler_accepted [OF len hdr, of now' h t1] second
  have "ctr_data h2 = ?d" by auto
  then show ?thesis
    by (simp add: update_performance_metrics_keeps getattr_other_fields)
next
  case False
  then have "length data < 16 \<or> (16 \<le> length data \<and> data ! 0 \<noteq> 0xAA)" by auto
  with second have "h2 = h\<lparr>ctr_data := (ctr_data h)\<lparr>packet_errors := packet_errors (ctr_data h) + 1\<rparr>\<rparr>"
    by (auto simp add: message_handler_short message_handler_bad_header)
  then show ?thesis by (simp add: getattr_other_fields)
qed


lemma message_handler_documented_changes:
  assumes first: "message_handler t0 now g data = Some g1"
    and len: "16 \<le> length data" and hdr: "data ! 0 = 0xAA"
    and doc: "uint (data ! 1) \<in> {0, 1, 4, 13}"
  shows "last_values (ctr_data g1) \<noteq> Map.empty"
proof -
  from message_handler_accepted [OF len hdr, of now g t0] first
  obtain c' where h: "handle_by_index
        (update_performance_metrics ((ctr_data g)\<lparr>last_update := now\<rparr>) t0
           ((now - t0) * 1000)) now (uint (data ! 1)) data = Some c'"
    and g1: "ctr_data g1 = c'" by auto
  from len have "12 \<le> length data" by simp
  with h doc have "last_values c' \<noteq> Map.empty"
    by (auto simp add: handle_by_index_def handle_main_data_def byte_at_in_range Let_def
        update_value_shadow)
  with g1 show ?thesis by simp
qed

text \<open>
  Claim C5, as amended. \<^verbatim>\<open>update_value\<close> is a compare-and-set against the value last
  passed for the key (none yet counts as different): when the new value differs, it writes the attribute, sets the change flag, sets
  \<open>last_update\<close> and, while recording, appends one data point; when the value is equal it
  changes nothing at all. \<^verbatim>\<open>has_changes\<close> returns the flag and clears it, so a second
  call sees \<open>False\<close>. Hence, when the same packet is handled twice with the flag consumed
  in between, the flag after the first handling is set exactly when it was set before or
  the packet brought a value that differs (so it is set when an accepted packet of a
  documented type reaches a store that has tracked no value yet), and after the second
  handling it is clear, with the telemetry attributes and the recorded data untouched.
\<close>

theorem update_value_compare_and_set:
  "(last_values c k \<noteq> Some v \<longrightarrow>
      getattr (update_value c now k v) k = v \<and>
      last_values (update_value c now k v) k = Some v \<and>
      has_changes_flag (update_value c now k v) \<and>
      last_update (update_value c now k v) = now \<and>
      recorded_data (update_value c now k v) =
        (if recording c then
           recorded_data c @
             [\<lparr>dp_timestamp = now,
               dp_throttle = throttle (update_value c now k v),
               dp_gear = gear (update_value c now k v),
               dp_rpm = rpm (update_value c now k v),
               dp_controller_temp = controller_temp (update_value c now k v),
               dp_motor_temp = motor_temp (update_value c now k v),
               dp_speed = speed (update_value c now k v),
               dp_power = power (update_value c now k v),
               dp_voltage = voltage (update_value c now k v),
               dp_packet_count = packet_count c, dp_latency = avg_latency c\<rparr>]
         else recorded_data c)) \<and>
   (last_values d k = Some v \<longrightarrow> update_value d now k v = d) \<and>
   has_changes c = (has_changes_flag c, c\<lparr>has_changes_flag := False\<rparr>) \<and>
   fst (has_changes (snd (has_changes c))) = False \<and>
   (message_handler t0 now g data = Some g1 \<and>
    message_handler t1 now' (g1\<lparr>ctr_data := snd (has_changes (ctr_data g1))\<rparr>) data = Some g2 \<longrightarrow>
      fst (has_changes (ctr_data g1)) =
        (has_changes_flag (ctr_data g) \<or>
         last_values (ctr_data g1) \<noteq> last_values (ctr_data g)) \<and>
      (16 \<le> length data \<and> data ! 0 = 0xAA \<and> uint (data ! 1) \<in> {0, 1, 4, 13} \<and>
       last_values (ctr_data g) = Map.empty \<longrightarrow> fst (has_changes (ctr_data g1))) \<and>
      fst (has_changes (ctr_data g2)) = False \<and>
      getattr (ctr_data g2) k = getattr (ctr_data g1) k \<and>
      recorded_data (ctr_data g2) = recorded_data (ctr_data g1))"
proof (intro conjI impI)
  assume "last_values c k \<noteq> Some v"
  from update_value_changed [OF this, of now]
  show "getattr (update_value c now k v) k = v"
    and "last_update (update_value c now k v) = now"
    and "recorded_data (update_value c now k v) =
        (if recording c then
           recorded_data c @
             [\<lparr>dp_timestamp = now,
               dp_throttle = throttle (update_value c now k v),
               dp_gear = gear (update_value c now k v),
               dp_rpm = rpm (update_value c now k v),
               dp_controller_temp = controller_temp (update_value c now k v),
               dp_motor_temp = motor_temp (update_value c now k v),
               dp_speed = speed (update_value c now k v),
               dp_power = power (update_value c now k v),
               dp_voltage = voltage (update_value c now k v),
               dp_packet_count = packet_count c, dp_latency = avg_latency c\<rparr>]
         else recorded_data c)"
    by simp_all
  show "last_values (update_value c now k v) k = Some v"
    by (simp add: update_value_shadow)
  from \<open>last_values c k \<noteq> Some v\<close> show "has_changes_flag (update_value c now k v)"
    by (simp add: update_value_flag)
next
  assume "last_values d k = Some v"
  then show "update_value d now k v = d" by (rule update_value_noop)
next
  show "has_changes c = (has_changes_flag c, c\<lparr>has_changes_flag := False\<rparr>)"
    by (simp add: has_changes_def)
  show "fst (has_changes (snd (has_changes c))) = False"
    by (simp add: has_changes_def)
next
  assume a: "message_handler t0 now g data = Some g1 \<and>
    message_handler t1 now' (g1\<lparr>ctr_data := snd (has_changes (ctr_data g1))\<rparr>) data = Some g2"
  then have first: "message_handler t0 now g data = Some g1"
    and second: "message_handler t1 now' (g1\<lparr>ctr_data := snd (has_changes (ctr_data g1))\<rparr>) data
      = Some g2" by simp_all
  let ?h = "g1\<lparr>ctr_data := snd (has_changes (ctr_data g1))\<rparr>"
  have same: "last_values (ctr_data ?h) = last_values (ctr_data g1)"
    "voltage (ctr_data ?h) = voltage (ctr_data g1)"
    by (simp_all add: has_changes_def)
  from message_handler_flag [OF first]
  show "fst (has_changes (ctr_data g1)) =
        (has_changes_flag (ctr_data g) \<or>
         last_values (ctr_data g1) \<noteq> last_values (ctr_data g))"
    by (simp add: has_changes_def)
  {
    assume b: "16 \<le> length data \<and> data ! 0 = 0xAA \<and> uint (data ! 1) \<in> {0, 1, 4, 13} \<and>
       last_values (ctr_data g) = Map.empty"
    then have "last_values (ctr_data g1) \<noteq> last_values (ctr_data g)"
      using message_handler_documented_changes [OF first] by simp
    with message_handler_flag [OF first]
    show "fst (has_changes (ctr_data g1))"
      by (simp add: has_changes_def)
  }
  from message_handler_repeat [OF first same second, of k]
  show "fst (has_changes (ctr_data g2)) = False"
    and "getattr (ctr_data g2) k = getattr (ctr_data g1) k"
    and "recorded_data (ctr_data g2) = recorded_data (ctr_data g1)"
    by (simp_all add: has_changes_def getattr_other_fields)
qed


theorem update_value_compare_and_set_witness:
  "last_values (controller_data_init 0) Rpm \<noteq> Some 5000 \<and>
   rpm (update_value (controller_data_init 0) 0 Rpm 5000) = 5000 \<and>
   has_changes_flag (update_value (controller_data_init 0) 0 Rpm 5000) \<and>
   last_values (update_value (controller_data_init 0) 0 Rpm 5000) Rpm = Some 5000 \<and>
   update_value (update_value (controller_data_init 0) 0 Rpm 5000) 0 Rpm 5000 =
     update_value (controller_data_init 0) 0 Rpm 5000 \<and>
   (\<exists>g1 g2.
      message_handler 0 0 (monitor_init 0)
        [0xAA, 4, 25, 0, 0, 0, 0, 0, 0, 0, 0, 0, 0, 0, 29, 0] = Some g1 \<and>
      message_handler 1 1 (g1\<lparr>ctr_data := snd (has_changes (ctr_data g1))\<rparr>)
        [0xAA, 4, 25, 0, 0, 0, 0, 0, 0, 0, 0, 0, 0, 0, 29, 0] = Some g2 \<and>
      fst (has_changes (ctr_data g1)) \<and> \<not> fst (has_changes (ctr_data g2)))"
proof -
  let ?F = "[0xAA, 4, 25, 0, 0, 0, 0, 0, 0, 0, 0, 0, 0, 0, 29, 0] :: byte list"
  let ?c = "controller_data_init 0"
  have len: "16 \<le> length ?F" and hdr: "?F ! 0 = 0xAA" by simp_all
  from message_handler_accepted [OF len hdr, of 0 "monitor_init 0" 0]
  obtain g1 c' where g1: "message_handler 0 0 (monitor_init 0) ?F = Some g1"
    and c': "ctr_data g1 = c'"
    and h: "handle_by_index
        (update_performance_metrics ((ctr_data (monitor_init 0))\<lparr>last_update := 0\<rparr>) 0
           ((0 - 0) * 1000)) 0 (uint (?F ! 1)) ?F = Some c'"
    by auto
  from h have "last_values c' Controller_temp = Some 25"
    by (auto simp add: handle_by_index_def byte_at_def update_value_shadow)
  moreover have "last_values (ctr_data (monitor_init 0)) Controller_temp = None"
    by (simp add: monitor_init_def controller_data_init_def)
  ultimately have neq: "last_values (ctr_data g1) \<noteq> last_values (ctr_data (monitor_init 0))"
    using c' by auto
  from message_handler_total [of 1 1 "g1\<lparr>ctr_data := snd (has_changes (ctr_data g1))\<rparr>" ?F]
  obtain g2 where g2: "message_handler 1 1 (g1\<lparr>ctr_data := snd (has_changes (ctr_data g1))\<rparr>) ?F
      = Some g2" by blast
  have fresh: "last_values ?c Rpm \<noteq> Some 5000"
    by (simp add: controller_data_init_def)
  have shadow: "last_values (update_value ?c 0 Rpm 5000) Rpm = Some 5000"
    by (simp add: update_value_shadow)
  from update_value_compare_and_set
    [where c = ?c and k = Rpm and v = 5000 and now = 0
       and d = "update_value ?c 0 Rpm 5000" and ?t0.0 = 0 and g = "monitor_init 0"
       and data = ?F and ?g1.0 = g1 and ?t1.0 = 1 and now' = 1 and ?g2.0 = g2]
    fresh shadow g1 g2 neq
  show ?thesis by auto
qed

text \<open>
  The claim as stated fails in two ways. An accepted frame of the undocumented type 7
  handled on a fresh store changes no value, so the flag is clear after its first
  application. And the comparison is against the tracked value, not the attribute: on a
  fresh store the rpm attribute is 0, yet an update of rpm with 0 marks a change.
\<close>

theorem first_application_without_change:
  "fst (has_changes (ctr_data (the (message_handler 0 0 (monitor_init 0)
       [0xAA, 7, 1, 2, 3, 4, 5, 6, 7, 8, 9, 10, 11, 12, 0x55, 0])))) = False \<and>
   rpm (controller_data_init 0) = 0 \<and>
   has_changes_flag (update_value (controller_data_init 0) 0 Rpm 0)"
proof -
  let ?F = "[0xAA, 7, 1, 2, 3, 4, 5, 6, 7, 8, 9, 10, 11, 12, 0x55, 0] :: byte list"
  have len: "16 \<le> length ?F" and hdr: "?F ! 0 = 0xAA" by simp_all
  from message_handler_accepted [OF len hdr, of 0 "monitor_init 0" 0]
  obtain g1 c' where g1: "message_handler 0 0 (monitor_init 0) ?F = Some g1"
    and c': "ctr_data g1 = c'"
    and h: "handle_by_index
        (update_performance_metrics ((ctr_data (monitor_init 0))\<lparr>last_update := 0\<rparr>) 0
           ((0 - 0) * 1000)) 0 (uint (?F ! 1)) ?F = Some c'"
    by auto
  from h have "has_changes_flag c' = has_changes_flag (ctr_data (monitor_init 0))"
    by (auto simp add: handle_by_index_def update_performance_metrics_keeps)
  then have "\<not> has_changes_flag (ctr_data g1)"
    using c' by (simp add: monitor_init_def controller_data_init_def)
  then have a: "fst (has_changes (ctr_data (the (message_handler 0 0 (monitor_init 0) ?F)))) = False"
    using g1 by (simp add: has_changes_def)
  have b: "rpm (controller_data_init 0) = 0"
    by (simp add: controller_data_init_def)
  have c: "has_changes_flag (update_value (controller_data_init 0) 0 Rpm 0)"
    by (simp add: update_value_flag controller_data_init_def)
  from a b c show ?thesis by blast
qed

subsection \<open>Main data applied to the store\<close>

lemma be16_not_negative:
  "\<not> uint (a :: byte) * 256 + uint (b :: byte) < 0"
  using be16_range(1) [of a b] by linarith

lemma currents_nonneg:
  "0 \<le> real_of_int (uint (a :: byte) * 256 + uint (b :: byte)) / 100"
proof -
  have "0 \<le> real_of_int (uint a * 256 + uint b)"
    using be16_range(1) [of a b] by (simp only: of_int_0_le_iff)
  then show ?thesis by simp
qed

lemma handle_main_data_eq:
  assumes "12 \<le> length data"
  shows "handle_main_data c now data =
     Some (let rpm_v = real_of_int (uint (data ! 4) * 256 + uint (data ! 5));
               gear_v = real_of_int (max 1 (min 3 (uint (data ! 2) div 4 mod 4)));
               iq = real_of_int (uint (data ! 8) * 256 + uint (data ! 9)) / 100;
               id = real_of_int (uint (data ! 10) * 256 + uint (data ! 11)) / 100;
               is_mag = sqrt (iq * iq + id * id);
               power_v = (if iq < 0 \<or> id < 0 then - (- is_mag * voltage c)
                          else - is_mag * voltage c);
               speed_v = rpm_v / 4 * 1.350 * 0.06
           in update_value (update_value (update_value (update_value c now Rpm rpm_v)
                now Gear gear_v) now Power power_v) now Speed speed_v)"
  using assms
  by (simp add: handle_main_data_def byte_at_in_range Let_def be16_eq gear_bits_eq
      be16_not_negative del: of_int_add of_int_mult)

lemma getattr_update_value:
  "getattr (update_value c now k v) k' =
     (if k' = k \<and> last_values c k \<noteq> Some v then v else getattr c k')"
  by (cases k; cases k'; simp add: update_value_def record_data_point_def Let_def)








lemma message_handler_power:
  assumes "16 \<le> length data" and "data ! 0 = 0xAA" and "data ! 1 = 0"
  shows "\<exists>g'. message_handler t0 now g data = Some g' \<and>
     last_values (ctr_data g') Power =
       Some (- sqrt (real_of_int (uint (data ! 8) * 256 + uint (data ! 9)) / 100 *
                     (real_of_int (uint (data ! 8) * 256 + uint (data ! 9)) / 100) +
                     real_of_int (uint (data ! 10) * 256 + uint (data ! 11)) / 100 *
                     (real_of_int (uint (data ! 10) * 256 + uint (data ! 11)) / 100)) *
             voltage (ctr_data g))"
proof -
  let ?c = "update_performance_metrics ((ctr_data g)\<lparr>last_update := now\<rparr>) t0
           ((now - t0) * 1000)"
  from message_handler_accepted [OF assms(1,2), of now g t0]
  obtain g' c' where g': "message_handler t0 now g data = Some g'"
    and c': "ctr_data g' = c'"
    and h: "handle_by_index ?c now (uint (data ! 1)) data = Some c'"
    by auto
  from assms(1) have len12: "12 \<le> length data" by simp
  from h assms(3) have "handle_main_data ?c now data = Some c'"
    by (simp add: handle_by_index_def)
  then have "last_values c' Power =
       Some (- sqrt (real_of_int (uint (data ! 8) * 256 + uint (data ! 9)) / 100 *
                     (real_of_int (uint (data ! 8) * 256 + uint (data ! 9)) / 100) +
                     real_of_int (uint (data ! 10) * 256 + uint (data ! 11)) / 100 *
                     (real_of_int (uint (data ! 10) * 256 + uint (data ! 11)) / 100)) *
             voltage ?c)"
    by (auto simp add: handle_main_data_eq [OF len12] Let_def update_value_shadow
        be16_not_negative simp del: of_int_add of_int_mult)
  with g' c' show ?thesis
    by (auto simp add: update_performance_metrics_keeps)
qed

text \<open>
  Claim C8. For every accepted type-0 frame the decoded \<open>iq\<close> and \<open>id\<close> are quotients of
  unsigned 16-bit big-endian values by 100, hence never negative; the condition
  \<^verbatim>\<open>iq < 0 or id < 0\<close> that flips the sign of the power is never true, the power passed to
  the store is \<open>- is_mag * voltage\<close>, and it is at most zero whenever the stored voltage is
  not negative.
\<close>

theorem power_sign_flip_unreachable:
  assumes "16 \<le> length data" and "data ! 0 = 0xAA" and "data ! 1 = 0"
  shows "\<exists>info gear_bits gear_name rpm_v iq id is_mag g'.
     analyze_packet now insp data =
       Some (Decoded info, store_in_history insp (Decoded info)) \<and>
     parsed_data info = Main_data gear_bits gear_name rpm_v iq id is_mag \<and>
     iq = real_of_int (uint (data ! 8) * 256 + uint (data ! 9)) / 100 \<and>
     id = real_of_int (uint (data ! 10) * 256 + uint (data ! 11)) / 100 \<and>
     uint (data ! 8) * 256 + uint (data ! 9) < 65536 \<and>
     uint (data ! 10) * 256 + uint (data ! 11) < 65536 \<and>
     is_mag = sqrt (iq * iq + id * id) \<and>
     0 \<le> iq \<and> 0 \<le> id \<and> \<not> (iq < 0 \<or> id < 0) \<and>
     message_handler t0 now g data = Some g' \<and>
     last_values (ctr_data g') Power = Some (- is_mag * voltage (ctr_data g)) \<and>
     (0 \<le> voltage (ctr_data g) \<longrightarrow> - is_mag * voltage (ctr_data g) \<le> 0)"
proof -
  from analyze_packet_accepted [OF assms(1,2), of now insp]
  obtain info where a: "analyze_packet now insp data =
            Some (Decoded info, store_in_history insp (Decoded info))"
    and p: "parse_by_index (uint (data ! 1)) data = Some (parsed_data info)"
    by blast
  from assms(1) have len12: "12 \<le> length data" by simp
  from p assms(3) have "parse_main_data data = Some (parsed_data info)"
    by (simp add: parse_by_index_def)
  then have pd: "parsed_data info =
      Main_data (uint (data ! 2) div 4 mod 4)
        (if uint (data ! 2) div 4 mod 4 = 0 then ''High''
         else if uint (data ! 2) div 4 mod 4 = 1 then ''Mid''
         else if uint (data ! 2) div 4 mod 4 = 2 then ''Low'' else ''Mid'')
        (uint (data ! 4) * 256 + uint (data ! 5))
        (real_of_int (uint (data ! 8) * 256 + uint (data ! 9)) / 100)
        (real_of_int (uint (data ! 10) * 256 + uint (data ! 11)) / 100)
        (sqrt ((real_of_int (uint (data ! 8) * 256 + uint (data ! 9)) / 100) *
               (real_of_int (uint (data ! 8) * 256 + uint (data ! 9)) / 100) +
               (real_of_int (uint (data ! 10) * 256 + uint (data ! 11)) / 100) *
               (real_of_int (uint (data ! 10) * 256 + uint (data ! 11)) / 100)))"
    by (simp only: parse_main_data_eq [OF len12] option.inject)
  from message_handler_power [OF assms, of t0 now g]
  obtain g' where g': "message_handler t0 now g data = Some g'"
    and pw: "last_values (ctr_data g') Power =
       Some (- sqrt (real_of_int (uint (data ! 8) * 256 + uint (data ! 9)) / 100 *
                     (real_of_int (uint (data ! 8) * 256 + uint (data ! 9)) / 100) +
                     real_of_int (uint (data ! 10) * 256 + uint (data ! 11)) / 100 *
                     (real_of_int (uint (data ! 10) * 256 + uint (data ! 11)) / 100)) *
             voltage (ctr_data g))"
    by blast
  have nn: "0 \<le> real_of_int (uint (data ! 8) * 256 + uint (data ! 9)) / 100"
    "0 \<le> real_of_int (uint (data ! 10) * 256 + uint (data ! 11)) / 100"
    by (rule currents_nonneg)+
  have neg: "- sqrt (x * x + y * y) * v \<le> 0" if "0 \<le> v" for x y v :: real
  proof -
    have "0 \<le> sqrt (x * x + y * y)" by simp
    then have "0 \<le> sqrt (x * x + y * y) * v" using that by (rule mult_nonneg_nonneg)
    then show ?thesis by simp
  qed
  show ?thesis
    using a pd g' pw nn neg be16_range(2) [of "data ! 8" "data ! 9"]
      be16_range(2) [of "data ! 10" "data ! 11"]
    by (intro exI conjI impI) (assumption | simp add: not_less)+
qed


lemma main_data_gear_example:
  "parse_main_data [0xAA, 0, 4, 0, 0x13, 0x88, 0, 0, 0x27, 0x10, 0, 0, 0, 0, 0xA8, 0 :: byte] =
      Some (Main_data 1 ''Mid'' 5000 100 0 100)"
  by (simp add: parse_main_data_eq sqrt_10000)

theorem power_sign_flip_unreachable_witness:
  "16 \<le> length [0xAA, 0, 4, 0, 0x13, 0x88, 0, 0, 0x27, 0x10, 0, 0, 0, 0, 0xA8, 0 :: byte] \<and>
   [0xAA, 0, 4, 0, 0x13, 0x88, 0, 0, 0x27, 0x10, 0, 0, 0, 0, 0xA8, 0 :: byte] ! 0 = 0xAA \<and>
   [0xAA, 0, 4, 0, 0x13, 0x88, 0, 0, 0x27, 0x10, 0, 0, 0, 0, 0xA8, 0 :: byte] ! 1 = 0 \<and>
   0 \<le> voltage (ctr_data ((monitor_init 0)\<lparr>ctr_data :=
        (controller_data_init 0)\<lparr>voltage := 90\<rparr>\<rparr>)) \<and>
   (\<exists>info g'.
      analyze_packet 0 packet_inspector_init
        [0xAA, 0, 4, 0, 0x13, 0x88, 0, 0, 0x27, 0x10, 0, 0, 0, 0, 0xA8, 0] =
        Some (Decoded info, store_in_history packet_inspector_init (Decoded info)) \<and>
      parsed_data info = Main_data 1 ''Mid'' 5000 100 0 100 \<and>
      message_handler 0 0
        ((monitor_init 0)\<lparr>ctr_data := (controller_data_init 0)\<lparr>voltage := 90\<rparr>\<rparr>)
        [0xAA, 0, 4, 0, 0x13, 0x88, 0, 0, 0x27, 0x10, 0, 0, 0, 0, 0xA8, 0] = Some g' \<and>
      last_values (ctr_data g') Power = Some (- 9000))"
proof -
  from main_data_gear_example
  have gear: "parse_main_data [0xAA, 0, 4, 0, 0x13, 0x88, 0, 0, 0x27, 0x10, 0, 0, 0, 0, 0xA8, 0 :: byte] =
      Some (Main_data 1 ''Mid'' 5000 100 0 100)" .
  from power_sign_flip_unreachable
    [where data = "[0xAA, 0, 4, 0, 0x13, 0x88, 0, 0, 0x27, 0x10, 0, 0, 0, 0, 0xA8, 0]"
       and now = 0 and insp = packet_inspector_init and ?t0.0 = 0
       and g = "(monitor_init 0)\<lparr>ctr_data := (controller_data_init 0)\<lparr>voltage := 90\<rparr>\<rparr>"]
  obtain info g' is_mag gb gn r
    where a: "analyze_packet 0 packet_inspector_init
        [0xAA, 0, 4, 0, 0x13, 0x88, 0, 0, 0x27, 0x10, 0, 0, 0, 0, 0xA8, 0] =
        Some (Decoded info, store_in_history packet_inspector_init (Decoded info))"
      and pd: "parsed_data info = Main_data gb gn r 100 0 is_mag"
      and m: "is_mag = 100"
      and g': "message_handler 0 0
        ((monitor_init 0)\<lparr>ctr_data := (controller_data_init 0)\<lparr>voltage := 90\<rparr>\<rparr>)
        [0xAA, 0, 4, 0, 0x13, 0x88, 0, 0, 0x27, 0x10, 0, 0, 0, 0, 0xA8, 0] = Some g'"
      and pw: "last_values (ctr_data g') Power = Some (- is_mag * 90)"
    by (auto simp add: sqrt_10000)
  from a have "parse_main_data [0xAA, 0, 4, 0, 0x13, 0x88, 0, 0, 0x27, 0x10, 0, 0, 0, 0, 0xA8, 0] =
      Some (parsed_data info)"
    by (auto simp add: analyze_packet_def byte_at_def parse_by_index_def Let_def
        split: bind_splits simp del: upt_rec_numeral)
  with gear pd m a g' pw show ?thesis by auto
qed

subsection \<open>Reset on disconnect\<close>

text \<open>
  Claim C10. While the monitor is disconnected, the display tick writes zero into the
  telemetry attributes and leaves the last-value map of \<^verbatim>\<open>update_value\<close> as it is.
  Consequently, for every key, an update after the reset with the value that the map holds
  for the key (the value the attribute held before the reset) is a no-op: it reports no
  change and does not write the attribute, which stays zero.
\<close>

theorem reset_keeps_last_values:
  assumes "\<not> terminal_paused g" and "\<not> is_connected g"
    and "last_values (ctr_data g) k = Some v"
  shows "fst (update_display g) \<and>
         getattr (ctr_data (snd (update_display g))) k = 0 \<and>
         last_values (ctr_data (snd (update_display g))) = last_values (ctr_data g) \<and>
         update_value (ctr_data (snd (update_display g))) now k v =
           ctr_data (snd (update_display g)) \<and>
         getattr (update_value (ctr_data (snd (update_display g))) now k v) k = 0 \<and>
         \<not> has_changes_flag (update_value (ctr_data (snd (update_display g))) now k v)"
proof -
  have ud: "update_display g =
      (True, g\<lparr>ctr_data := (ctr_data g)\<lparr>has_changes_flag := False, throttle := 0, gear := 0,
         rpm := 0, controller_temp := 0, motor_temp := 0, speed := 0, power := 0,
         voltage := 0\<rparr>\<rparr>)"
    using assms(1,2) by (simp add: update_display_def has_changes_def)
  have lv: "last_values (ctr_data (snd (update_display g))) k = Some v"
    using assms(3) by (simp add: ud)
  have zero: "getattr (ctr_data (snd (update_display g))) k = 0"
    by (cases k; simp add: ud)
  have flag: "\<not> has_changes_flag (ctr_data (snd (update_display g)))"
    by (simp add: ud)
  from update_value_noop [OF lv, of now]
  have noop: "update_value (ctr_data (snd (update_display g))) now k v =
           ctr_data (snd (update_display g))" .
  show ?thesis
    using zero flag by (simp only: noop) (simp add: ud)
qed


theorem reset_keeps_last_values_witness:
  "\<not> terminal_paused
       ((monitor_init 0)\<lparr>ctr_data := update_value (controller_data_init 0) 0 Rpm 5000\<rparr>) \<and>
   \<not> is_connected
       ((monitor_init 0)\<lparr>ctr_data := update_value (controller_data_init 0) 0 Rpm 5000\<rparr>) \<and>
   last_values (ctr_data
       ((monitor_init 0)\<lparr>ctr_data := update_value (controller_data_init 0) 0 Rpm 5000\<rparr>)) Rpm
     = Some 5000 \<and>
   rpm (ctr_data
       ((monitor_init 0)\<lparr>ctr_data := update_value (controller_data_init 0) 0 Rpm 5000\<rparr>))
     = 5000 \<and>
   rpm (ctr_data (snd (update_display
       ((monitor_init 0)\<lparr>ctr_data := update_value (controller_data_init 0) 0 Rpm 5000\<rparr>))))
     = 0 \<and>
   rpm (update_value (ctr_data (snd (update_display
       ((monitor_init 0)\<lparr>ctr_data := update_value (controller_data_init 0) 0 Rpm 5000\<rparr>))))
       1 Rpm 5000) = 0 \<and>
   \<not> has_changes_flag (update_value (ctr_data (snd (update_display
       ((monitor_init 0)\<lparr>ctr_data := update_value (controller_data_init 0) 0 Rpm 5000\<rparr>))))
       1 Rpm 5000)"
proof -
  let ?g = "(monitor_init 0)\<lparr>ctr_data := update_value (controller_data_init 0) 0 Rpm 5000\<rparr>"
  have p: "\<not> terminal_paused ?g" and c: "\<not> is_connected ?g"
    by (simp_all add: monitor_init_def)
  have l: "last_values (ctr_data ?g) Rpm = Some 5000"
    by (simp add: update_value_shadow)
  have r: "rpm (ctr_data ?g) = 5000"
    using getattr_update_value [of "controller_data_init 0" 0 Rpm 5000 Rpm]
    by (simp add: controller_data_init_def)
  from reset_keeps_last_values [OF p c l, of 1]
  have a: "getattr (ctr_data (snd (update_display ?g))) Rpm = 0"
    and b: "getattr (update_value (ctr_data (snd (update_display ?g))) 1 Rpm 5000) Rpm = 0"
    and f: "\<not> has_changes_flag (update_value (ctr_data (snd (update_display ?g))) 1 Rpm 5000)"
    by blast+
  from a b have "rpm (ctr_data (snd (update_display ?g))) = 0"
    and "rpm (update_value (ctr_data (snd (update_display ?g))) 1 Rpm 5000) = 0"
    by (simp_all only: getattr.simps)
  with p c l r f show ?thesis by blast
qed

subsection \<open>Connection status\<close>




section \<open>Properties of the packet history\<close>

subsection \<open>Bounded history\<close>

lemma store_in_history_window:
  assumes "packet_history insp = drop (length xs - max_history insp) xs"
  shows "packet_history (store_in_history insp p) =
           drop (length (xs @ [p]) - max_history insp) (xs @ [p])"
    and "max_history (store_in_history insp p) = max_history insp"
proof -
  let ?cap = "max_history insp"
  show "max_history (store_in_history insp p) = max_history insp"
    by (simp add: store_in_history_def Let_def)
  show "packet_history (store_in_history insp p) =
           drop (length (xs @ [p]) - max_history insp) (xs @ [p])"
  proof (cases "length xs < ?cap")
    case True
    then show ?thesis using assms
      by (simp add: store_in_history_def Let_def)
  next
    case False
    then have ge: "?cap \<le> length xs" by simp
    have len: "length (drop (length xs - ?cap) xs) = ?cap" using ge by simp
    have "tl (drop (length xs - ?cap) xs @ [p]) = drop (Suc (length xs) - ?cap) (xs @ [p])"
    proof (cases "?cap = 0")
      case True
      then show ?thesis by simp
    next
      case False
      then have "drop (length xs - ?cap) xs \<noteq> []" using ge by auto
      then have "tl (drop (length xs - ?cap) xs @ [p]) = tl (drop (length xs - ?cap) xs) @ [p]"
        by simp
      also have "tl (drop (length xs - ?cap) xs) = drop (Suc (length xs - ?cap)) xs"
        by (simp add: drop_Suc tl_drop)
      also have "Suc (length xs - ?cap) = Suc (length xs) - ?cap" using ge by simp
      finally show ?thesis using ge False by simp
    qed
    then show ?thesis using assms len
      by (simp add: store_in_history_def Let_def)
  qed
qed

lemma analyze_packet_result_indep:
  "map_option fst (analyze_packet now insp data) =
   map_option fst (analyze_packet now insp0 data)"
  by (auto simp add: analyze_packet_def Let_def split: bind_splits simp del: upt_rec_numeral)

lemma analyze_packet_step:
  "\<exists>r. analyze_packet now insp data =
         Some (r, if is_valid r then store_in_history insp r else insp) \<and>
       fst (the (analyze_packet now insp0 data)) = r"
proof -
  have "\<exists>r. analyze_packet now insp data =
         Some (r, if is_valid r then store_in_history insp r else insp)"
  proof (cases "length data < 16")
    case True
    then show ?thesis by (simp add: analyze_packet_short)
  next
    case False
    then have len: "16 \<le> length data" by simp
    show ?thesis
    proof (cases "data ! 0 = 0xAA")
      case True
      from analyze_packet_accepted [OF len True, of now insp] show ?thesis by auto
    next
      case False
      with len show ?thesis by (simp add: analyze_packet_bad_header)
    qed
  qed
  then obtain r where r: "analyze_packet now insp data =
         Some (r, if is_valid r then store_in_history insp r else insp)" by blast
  with analyze_packet_result_indep [of now insp data insp0]
  have "map_option fst (analyze_packet now insp0 data) = Some r" by simp
  then have "fst (the (analyze_packet now insp0 data)) = r" by auto
  with r show ?thesis by blast
qed

lemma analyze_all_window:
  assumes "packet_history insp = drop (length xs - max_history insp) xs"
  shows "\<exists>insp'. analyze_all insp frames = Some insp' \<and>
     max_history insp' = max_history insp \<and>
     packet_history insp' =
       drop (length (xs @ filter is_valid
               (map (\<lambda>(t, d). fst (the (analyze_packet t insp0 d))) frames)) - max_history insp)
         (xs @ filter is_valid
               (map (\<lambda>(t, d). fst (the (analyze_packet t insp0 d))) frames))"
  using assms
proof (induction frames arbitrary: insp xs)
  case Nil
  then show ?case by simp
next
  case (Cons f frames)
  obtain t d where f: "f = (t, d)" by (cases f)
  from analyze_packet_step [of t insp d insp0]
  obtain r where step: "analyze_packet t insp d =
         Some (r, if is_valid r then store_in_history insp r else insp)"
    and res: "fst (the (analyze_packet t insp0 d)) = r" by blast
  show ?case
  proof (cases "is_valid r")
    case True
    let ?i = "store_in_history insp r"
    from store_in_history_window [OF Cons.prems, of r]
    have w: "packet_history ?i = drop (length (xs @ [r]) - max_history ?i) (xs @ [r])"
      and m: "max_history ?i = max_history insp" by simp_all
    from Cons.IH [OF w] m True step res f show ?thesis by simp
  next
    case False
    from Cons.IH [OF Cons.prems] False step res f show ?thesis by simp
  qed
qed

lemma slice_from_suffix: "\<exists>older. xs = older @ slice_from xs start"
proof -
  have "xs = take n xs @ drop n xs" for n by simp
  then show ?thesis unfolding slice_from_def Let_def by blast
qed


lemma get_recent_packets_suffix:
  "\<exists>older. packet_history insp = older @ get_recent_packets insp n"
  using slice_from_suffix [of "packet_history insp" "- n"]
  by (simp add: get_recent_packets_def)

lemma get_recent_packets_positive:
  assumes "0 < n"
  shows "get_recent_packets insp n =
     drop (length (packet_history insp) - nat n) (packet_history insp)"
proof -
  have "nat (max 0 (int (length (packet_history insp)) - n)) =
      length (packet_history insp) - nat n"
    using assms by (simp add: max_def nat_diff_distrib')
  then show ?thesis
    using assms by (simp add: get_recent_packets_def slice_from_def Let_def)
qed

text \<open>
  Claim C6. Starting from an empty history of capacity \<open>cap\<close> (1000 in the program), after
  any sequence of notifications the history holds the accepted packets in arrival order,
  cut to the last \<open>cap\<close> of them: it never holds more than \<open>cap\<close>, and after \<open>cap + k\<close>
  accepted packets the \<open>k\<close> oldest are gone and the other \<open>cap\<close> remain in order.
  \<^verbatim>\<open>get_recent_packets\<close> returns a final segment of the history, so the most recent packet
  comes last; for a positive count it is the last \<open>n\<close> packets.
\<close>

theorem history_bounded_fifo:
  "\<exists>insp'. analyze_all (packet_inspector_init\<lparr>max_history := cap\<rparr>) frames = Some insp' \<and>
     (let accepted = filter is_valid
            (map (\<lambda>(t, d). fst (the (analyze_packet t packet_inspector_init d))) frames)
      in length (packet_history insp') \<le> cap \<and>
         packet_history insp' = drop (length accepted - cap) accepted \<and>
         (length accepted = cap + k \<longrightarrow>
            packet_history insp' = drop k accepted \<and> length (packet_history insp') = cap)) \<and>
     (\<exists>older. packet_history insp' = older @ get_recent_packets insp' n) \<and>
     (0 < n \<longrightarrow>
        get_recent_packets insp' n =
          drop (length (packet_history insp') - nat n) (packet_history insp') \<and>
        (packet_history insp' \<noteq> [] \<longrightarrow>
           last (get_recent_packets insp' n) = last (packet_history insp')))"
proof -
  let ?i = "packet_inspector_init\<lparr>max_history := cap\<rparr>"
  let ?acc = "filter is_valid
            (map (\<lambda>(t, d). fst (the (analyze_packet t packet_inspector_init d))) frames)"
  have "packet_history ?i = drop (length ([] :: analysis list) - max_history ?i) []"
    by (simp add: packet_inspector_init_def)
  from analyze_all_window [OF this, of frames packet_inspector_init]
  obtain insp' where run: "analyze_all ?i frames = Some insp'"
    and h: "packet_history insp' = drop (length ?acc - cap) ?acc"
    by auto
  have bound: "length (packet_history insp') \<le> cap"
    by (simp add: h)
  have exact: "packet_history insp' = drop k ?acc \<and> length (packet_history insp') = cap"
    if "length ?acc = cap + k"
    using that by (simp add: h)
  have recent: "last (get_recent_packets insp' n) = last (packet_history insp')"
    if "0 < n" "packet_history insp' \<noteq> []"
  proof -
    have "length (packet_history insp') - nat n < length (packet_history insp')"
      using that by (cases "packet_history insp'") auto
    then show ?thesis
      by (simp add: get_recent_packets_positive [OF that(1)] last_drop)
  qed
  show ?thesis
    unfolding Let_def
    using run bound h exact recent get_recent_packets_suffix [of insp' n]
      get_recent_packets_positive [of n insp']
    by blast
qed


theorem history_bounded_fifo_witness:
  "\<exists>insp'. analyze_all (packet_inspector_init\<lparr>max_history := 2\<rparr>)
       [(1, [0xAA, 4, 21, 0, 0, 0, 0, 0, 0, 0, 0, 0, 0, 0, 17, 0]),
        (2, [0xAA, 4, 22, 0, 0, 0, 0, 0, 0, 0, 0, 0, 0, 0, 18, 0]),
        (3, [0xAA, 4, 23, 0, 0, 0, 0, 0, 0, 0, 0, 0, 0, 0, 19, 0])] = Some insp' \<and>
     length (filter is_valid
       (map (\<lambda>(t, d). fst (the (analyze_packet t packet_inspector_init d)))
         [(1, [0xAA, 4, 21, 0, 0, 0, 0, 0, 0, 0, 0, 0, 0, 0, 17, 0]),
          (2, [0xAA, 4, 22, 0, 0, 0, 0, 0, 0, 0, 0, 0, 0, 0, 18, 0]),
          (3, [0xAA, 4, 23, 0, 0, 0, 0, 0, 0, 0, 0, 0, 0, 0, 19, 0])])) = 2 + 1 \<and>
     (0 :: int) < 1 \<and>
     map (\<lambda>r. case r of Decoded p \<Rightarrow> timestamp p | Rejected e raw \<Rightarrow> 0)
       (packet_history insp') = [2, 3] \<and>
     map (\<lambda>r. case r of Decoded p \<Rightarrow> timestamp p | Rejected e raw \<Rightarrow> 0)
       (get_recent_packets insp' 1) = [3]"
proof -
  let ?F1 = "[0xAA, 4, 21, 0, 0, 0, 0, 0, 0, 0, 0, 0, 0, 0, 17, 0] :: byte list"
  let ?F2 = "[0xAA, 4, 22, 0, 0, 0, 0, 0, 0, 0, 0, 0, 0, 0, 18, 0] :: byte list"
  let ?F3 = "[0xAA, 4, 23, 0, 0, 0, 0, 0, 0, 0, 0, 0, 0, 0, 19, 0] :: byte list"
  have acc: "\<exists>info. fst (the (analyze_packet t packet_inspector_init d)) = Decoded info \<and>
      valid info \<and> timestamp info = t"
    if "16 \<le> length d" "d ! 0 = 0xAA" for t d
    using analyze_packet_accepted [OF that, of t packet_inspector_init] by auto
  obtain i1 where i1: "fst (the (analyze_packet 1 packet_inspector_init ?F1)) = Decoded i1"
    "valid i1" "timestamp i1 = 1" using acc [of ?F1 1] by auto
  obtain i2 where i2: "fst (the (analyze_packet 2 packet_inspector_init ?F2)) = Decoded i2"
    "valid i2" "timestamp i2 = 2" using acc [of ?F2 2] by auto
  obtain i3 where i3: "fst (the (analyze_packet 3 packet_inspector_init ?F3)) = Decoded i3"
    "valid i3" "timestamp i3 = 3" using acc [of ?F3 3] by auto
  have accepted: "filter is_valid
       (map (\<lambda>(t, d). fst (the (analyze_packet t packet_inspector_init d)))
         [(1, ?F1), (2, ?F2), (3, ?F3)]) = [Decoded i1, Decoded i2, Decoded i3]"
    by (simp add: i1 i2 i3)
  have len3: "length [Decoded i1, Decoded i2, Decoded i3] = 2 + 1"
    and pos: "(0 :: int) < 1" by simp_all
  note inst = history_bounded_fifo [of 2 "[(1, ?F1), (2, ?F2), (3, ?F3)]" 1 1]
  from inst [unfolded Let_def accepted] len3 pos
  obtain insp' where run: "analyze_all (packet_inspector_init\<lparr>max_history := 2\<rparr>)
       [(1, ?F1), (2, ?F2), (3, ?F3)] = Some insp'"
    and h: "packet_history insp' = drop 1 [Decoded i1, Decoded i2, Decoded i3]"
    and r: "get_recent_packets insp' 1 =
          drop (length (packet_history insp') - nat 1) (packet_history insp')"
    by blast
  from h have h': "packet_history insp' = [Decoded i2, Decoded i3]" by simp
  from r have r': "get_recent_packets insp' 1 = [Decoded i3]" by (simp add: h')
  show ?thesis
    apply (rule exI [of _ insp'])
    apply (simp only: accepted run h' r')
    apply (simp add: i2 i3)
    done
qed

subsection \<open>Statistics\<close>

lemma statistics_loop_eq:
  "statistics_loop h index_counts errs =
     (\<lambda>i. let n = length (filter (\<lambda>r. case r of Decoded p \<Rightarrow> valid p \<and> index p = i
                                          | Rejected e raw \<Rightarrow> False) h)
           in if n = 0 then index_counts i
              else Some ((case index_counts i of None \<Rightarrow> 0 | Some c \<Rightarrow> c) + n),
      errs + length (filter (\<lambda>r. case r of Decoded p \<Rightarrow> valid p \<and> \<not> checksum_valid p
                                          | Rejected e raw \<Rightarrow> False) h))"
proof (induction h index_counts errs rule: statistics_loop.induct)
  case (1 index_counts errs)
  then show ?case by simp
next
  case (2 e raw rest index_counts errs)
  then show ?case by simp
next
  case (3 p rest index_counts errs)
  show ?case
  proof (cases "valid p")
    case True
    have "statistics_loop (Decoded p # rest) index_counts errs =
        statistics_loop rest
          (index_counts(index p \<mapsto>
             (case index_counts (index p) of None \<Rightarrow> 0 | Some c \<Rightarrow> c) + 1))
          (if \<not> checksum_valid p then errs + 1 else errs)"
      using True by simp
    also note "3.IH"(1) [OF True]
    finally show ?thesis
      using True by (auto simp add: fun_eq_iff Let_def split: option.splits)
  next
    case False
    have "statistics_loop (Decoded p # rest) index_counts errs =
        statistics_loop rest index_counts errs"
      using False by simp
    also note "3.IH"(2) [OF False]
    finally show ?thesis
      using False by (simp add: fun_eq_iff Let_def)
  qed
qed


text \<open>
  Claim C9, as amended. For a non-empty history \<^verbatim>\<open>get_packet_statistics\<close> returns the
  total, the number of valid packets, the number of valid packets with a checksum error,
  the number of valid packets per type index (indices that do not occur have no entry), and
  the error rate \<open>checksum_errors / total\<close>. For an empty history it returns the empty
  dictionary: no total and no error rate.
\<close>

theorem packet_statistics_contents:
  "(packet_history insp \<noteq> [] \<longrightarrow>
      (\<exists>st. get_packet_statistics insp = Some st \<and>
         total_packets st = length (packet_history insp) \<and>
         0 < total_packets st \<and>
         valid_packets st = length (filter is_valid (packet_history insp)) \<and>
         checksum_errors st =
           length (filter (\<lambda>r. case r of Decoded p \<Rightarrow> valid p \<and> \<not> checksum_valid p
                                  | Rejected e raw \<Rightarrow> False) (packet_history insp)) \<and>
         index_distribution st i =
           (let n = length (filter (\<lambda>r. case r of Decoded p \<Rightarrow> valid p \<and> index p = i
                                          | Rejected e raw \<Rightarrow> False) (packet_history insp))
            in if n = 0 then None else Some n) \<and>
         error_rate st = real (checksum_errors st) / real (total_packets st))) \<and>
   (packet_history insp = [] \<longrightarrow> get_packet_statistics insp = None)"
  by (simp add: get_packet_statistics_def statistics_loop_eq Let_def)

theorem packet_statistics_contents_witness:
  "packet_history
     \<lparr>packet_history =
        [Decoded \<lparr>valid = True, index = 4, raw_data = [], checksum_valid = False,
                  checksum = 0, expected_checksum = 1, reserved = 0, timestamp = 0,
                  parsed_data = Controller_temp_data 25\<rparr>,
         Decoded \<lparr>valid = True, index = 4, raw_data = [], checksum_valid = True,
                  checksum = 0, expected_checksum = 0, reserved = 0, timestamp = 1,
                  parsed_data = Controller_temp_data 26\<rparr>],
      max_history = 1000, current_packet = None\<rparr> \<noteq> [] \<and>
   (\<exists>st. get_packet_statistics
       \<lparr>packet_history =
        [Decoded \<lparr>valid = True, index = 4, raw_data = [], checksum_valid = False,
                  checksum = 0, expected_checksum = 1, reserved = 0, timestamp = 0,
                  parsed_data = Controller_temp_data 25\<rparr>,
         Decoded \<lparr>valid = True, index = 4, raw_data = [], checksum_valid = True,
                  checksum = 0, expected_checksum = 0, reserved = 0, timestamp = 1,
                  parsed_data = Controller_temp_data 26\<rparr>],
      max_history = 1000, current_packet = None\<rparr> = Some st \<and>
      total_packets st = 2 \<and> valid_packets st = 2 \<and> checksum_errors st = 1 \<and>
      index_distribution st 4 = Some 2 \<and> error_rate st = 1 / 2) \<and>
   packet_history packet_inspector_init = [] \<and>
   get_packet_statistics packet_inspector_init = None"
  using packet_statistics_contents
    [of "\<lparr>packet_history =
        [Decoded \<lparr>valid = True, index = 4, raw_data = [], checksum_valid = False,
                  checksum = 0, expected_checksum = 1, reserved = 0, timestamp = 0,
                  parsed_data = Controller_temp_data 25\<rparr>,
         Decoded \<lparr>valid = True, index = 4, raw_data = [], checksum_valid = True,
                  checksum = 0, expected_checksum = 0, reserved = 0, timestamp = 1,
                  parsed_data = Controller_temp_data 26\<rparr>],
      max_history = 1000, current_packet = None\<rparr>" 4]
    packet_statistics_contents [of packet_inspector_init 4]
  by (auto simp add: packet_inspector_init_def)

text \<open>
  On the empty history the result is the empty dictionary, not statistics with error rate 0.
\<close>

theorem empty_history_no_statistics:
  "packet_history packet_inspector_init = [] \<and>
   get_packet_statistics packet_inspector_init = None"
  by (simp add: get_packet_statistics_def packet_inspector_init_def)

end
